theory Spec2Isabelle
  imports Complex_Main
begin

section \<open>JavaScript numbers\<close>

text \<open>
  The crop-box code computes with the TypeScript type \<open>number\<close>, the IEEE 754 doubles.
  A number is \<open>NaN\<close>, an infinity or a finite value, held as the real it denotes.
  Every arithmetic operation rounds its exact result to the nearest double, ties to
  the even mantissa, and overflows to an infinity; a decimal literal of the source that
  is not itself a double, such as \<open>0.3\<close>, stands for the double nearest to it. Only
  \<open>-0\<close> is not modelled: it is identified with \<open>+0\<close> (division by zero alone could
  tell them apart, and it is resolved as for \<open>+0\<close>).
\<close>

datatype number = NaN | NegInf | Fin real | PosInf

definition signed_inf :: "bool \<Rightarrow> number" where
  "signed_inf neg = (if neg then NegInf else PosInf)"

text \<open>
  Rounding to a double. A double is a whole multiple, of magnitude at most \<open>2^53\<close>, of
  a power of two that belongs to its binade, and of \<open>2^-1074\<close> for the subnormal numbers:
  \<open>double_exponent\<close> is that power for the binade of \<open>r\<close>. The quotient is rounded
  to the nearest integer, a tie going to the even one.
\<close>

definition double_exponent :: "real \<Rightarrow> int" where
  "double_exponent r = max (- 1074) (\<lfloor>log 2 \<bar>r\<bar>\<rfloor> - 52)"

definition round_half_even :: "real \<Rightarrow> int" where
  "round_half_even q =
     (let n = \<lfloor>q\<rfloor> in
      if q - of_int n < 1 / 2 then n
      else if 1 / 2 < q - of_int n then n + 1
      else if even n then n else n + 1)"

definition round_real :: "real \<Rightarrow> real" where
  "round_real r =
     (if r = 0 then 0
      else of_int (round_half_even (r / 2 powi double_exponent r)) * 2 powi double_exponent r)"

definition round_double :: "real \<Rightarrow> number" where
  "round_double r =
     (if 2 ^ 1024 \<le> \<bar>round_real r\<bar> then signed_inf (r < 0) else Fin (round_real r))"

text \<open>The comparison operators: every comparison with \<open>NaN\<close> is false.\<close>

fun js_lt :: "number \<Rightarrow> number \<Rightarrow> bool" where
  "js_lt NaN b = False"
| "js_lt a NaN = False"
| "js_lt a NegInf = False"
| "js_lt NegInf b = True"
| "js_lt PosInf b = False"
| "js_lt (Fin a) PosInf = True"
| "js_lt (Fin a) (Fin b) = (a < b)"

fun js_le :: "number \<Rightarrow> number \<Rightarrow> bool" where
  "js_le NaN b = False"
| "js_le a NaN = False"
| "js_le NegInf b = True"
| "js_le a PosInf = True"
| "js_le a NegInf = False"
| "js_le PosInf b = False"
| "js_le (Fin a) (Fin b) = (a \<le> b)"

definition js_gt :: "number \<Rightarrow> number \<Rightarrow> bool" where
  "js_gt a b = js_lt b a"

definition js_ge :: "number \<Rightarrow> number \<Rightarrow> bool" where
  "js_ge a b = js_le b a"

text \<open>\<open>Math.max\<close> and \<open>Math.min\<close> return \<open>NaN\<close> as soon as one argument is \<open>NaN\<close>.\<close>

definition Math_max :: "number \<Rightarrow> number \<Rightarrow> number" where
  "Math_max a b = (if a = NaN \<or> b = NaN then NaN else if js_lt a b then b else a)"

definition Math_min :: "number \<Rightarrow> number \<Rightarrow> number" where
  "Math_min a b = (if a = NaN \<or> b = NaN then NaN else if js_lt b a then b else a)"

text \<open>The floor of a double is a double, so \<open>Math.floor\<close> needs no rounding.\<close>

fun Math_floor :: "number \<Rightarrow> number" where
  "Math_floor (Fin a) = Fin (of_int \<lfloor>a\<rfloor>)"
| "Math_floor a = a"

text \<open>The arithmetic operators, each rounding the exact result of two finite operands.\<close>

fun js_add :: "number \<Rightarrow> number \<Rightarrow> number" where
  "js_add NaN b = NaN"
| "js_add a NaN = NaN"
| "js_add PosInf NegInf = NaN"
| "js_add NegInf PosInf = NaN"
| "js_add PosInf b = PosInf"
| "js_add a PosInf = PosInf"
| "js_add NegInf b = NegInf"
| "js_add a NegInf = NegInf"
| "js_add (Fin a) (Fin b) = round_double (a + b)"

fun js_sub :: "number \<Rightarrow> number \<Rightarrow> number" where
  "js_sub NaN b = NaN"
| "js_sub a NaN = NaN"
| "js_sub PosInf PosInf = NaN"
| "js_sub NegInf NegInf = NaN"
| "js_sub PosInf b = PosInf"
| "js_sub a PosInf = NegInf"
| "js_sub NegInf b = NegInf"
| "js_sub a NegInf = PosInf"
| "js_sub (Fin a) (Fin b) = round_double (a - b)"

text \<open>The sign of a non-\<open>NaN\<close> number, with zero counted as positive zero.\<close>

fun js_negative :: "number \<Rightarrow> bool" where
  "js_negative NegInf = True"
| "js_negative (Fin a) = (a < 0)"
| "js_negative a = False"

fun js_mul :: "number \<Rightarrow> number \<Rightarrow> number" where
  "js_mul NaN b = NaN"
| "js_mul a NaN = NaN"
| "js_mul (Fin a) (Fin b) = round_double (a * b)"
| "js_mul (Fin a) b = (if a = 0 then NaN else signed_inf ((a < 0) \<noteq> js_negative b))"
| "js_mul a (Fin b) = (if b = 0 then NaN else signed_inf (js_negative a \<noteq> (b < 0)))"
| "js_mul a b = signed_inf (js_negative a \<noteq> js_negative b)"

fun js_div :: "number \<Rightarrow> number \<Rightarrow> number" where
  "js_div NaN b = NaN"
| "js_div a NaN = NaN"
| "js_div (Fin a) (Fin b) =
     (if b = 0 then (if a = 0 then NaN else signed_inf (a < 0)) else round_double (a / b))"
| "js_div (Fin a) b = Fin 0"
| "js_div a (Fin b) = signed_inf (js_negative a \<noteq> (b < 0))"
| "js_div a b = NaN"

section \<open>The store\<close>

text \<open>
  \<open>CropBox\<close> of the store module. A position \<open>{x, y}\<close> (the type of
  \<open>dragStartPos\<close>) is the same record without the two sizes.
\<close>

record Point =
  x :: number
  y :: number

record CropBox = Point +
  width :: number
  height :: number


text \<open>
  \<open>ImageData\<close> of the store: the \<open>File\<close> object is opaque and left out; its
  \<open>width\<close> and \<open>height\<close> are named \<open>image_width\<close> and \<open>image_height\<close>, the
  plain names being the fields of \<open>CropBox\<close>.
\<close>

record ImageData =
  url :: "string option"
  image_width :: number
  image_height :: number

text \<open>
  The store holds the crop box and the image. Its other fields (\<open>gridSize\<close>,
  \<open>parameters\<close>, \<open>filter\<close>, \<open>croppedImages\<close>) are neither read nor written by the
  crop-box code. The field \<open>image\<close> is named \<open>image_data\<close>.
\<close>

record Store =
  cropBox :: CropBox
  image_data :: ImageData

definition hasImage :: "Store \<Rightarrow> bool" where
  "hasImage s = (url (image_data s) \<noteq> None \<and> url (image_data s) \<noteq> Some [])"

text \<open>\<open>Partial<CropBox>\<close>: each field is present or absent.\<close>

record PartialCropBox =
  x_opt :: "number option"
  y_opt :: "number option"
  width_opt :: "number option"
  height_opt :: "number option"

text \<open>An object literal with all four fields, passed where a partial box is expected.\<close>

definition all_fields :: "CropBox \<Rightarrow> PartialCropBox" where
  "all_fields b =
     \<lparr>x_opt = Some (x b), y_opt = Some (y b),
      width_opt = Some (width b), height_opt = Some (height b)\<rparr>"

text \<open>The spread \<open>{ ...cropBox.value, ...box }\<close>: a field of \<open>box\<close> wins where present.\<close>

definition spread :: "number \<Rightarrow> number option \<Rightarrow> number" where
  "spread old new = (case new of None \<Rightarrow> old | Some v \<Rightarrow> v)"

definition updateCropBox :: "PartialCropBox \<Rightarrow> Store \<Rightarrow> Store" where
  "updateCropBox box s =
     s\<lparr>cropBox :=
         \<lparr>x = spread (x (cropBox s)) (x_opt box),
          y = spread (y (cropBox s)) (y_opt box),
          width = spread (width (cropBox s)) (width_opt box),
          height = spread (height (cropBox s)) (height_opt box)\<rparr>\<rparr>"

section \<open>The page\<close>

text \<open>
  What the code reads from the DOM: the bounding rectangle of the two preview
  containers (\<open>None\<close> when \<open>querySelector\<close> finds no element) and the width of the
  window.
\<close>

record DOMRect =
  rect_left :: number
  rect_top :: number
  rect_width :: number
  rect_height :: number

record Document =
  innerWidth :: number
  preview_container_desktop :: "DOMRect option"
  preview_container_mobile :: "DOMRect option"

text \<open>
  A pointer event: the class list of its target (\<open>None\<close> for a null target) and
  either the mouse position or the list of touches, each a pair
  \<open>(clientX, clientY)\<close>.
\<close>

datatype Event =
    MouseEvent "string list option" number number
  | TouchEvent "string list option" "(number \<times> number) list"

fun target :: "Event \<Rightarrow> string list option" where
  "target (MouseEvent t cx cy) = t"
| "target (TouchEvent t ts) = t"

text \<open>
  \<open>'touches' in event ? event.touches[0].clientX : event.clientX\<close> and the same for
  \<open>clientY\<close>; reading \<open>clientX\<close> of a missing first touch throws, which is \<open>None\<close>.
\<close>

fun client :: "Event \<Rightarrow> (number \<times> number) option" where
  "client (MouseEvent t cx cy) = Some (cx, cy)"
| "client (TouchEvent t []) = None"
| "client (TouchEvent t (p # ps)) = Some p"

section \<open>The desktop crop-box composable\<close>

text \<open>
  The refs of \<open>useCropBoxDesktop\<close> together with the store it uses, the listeners it
  has registered on the document (event type and handler name) and the callbacks it
  has handed to \<open>requestAnimationFrame\<close> and that have not run yet. Both handlers
  queue the same callback, which differs only in the candidate box it captured, so a
  pending callback is that box. \<open>cropBoxElement\<close> is the class list of the
  referenced element, \<open>None\<close> while the ref is null.
\<close>

record Composable =
  store :: Store
  isDragging :: bool
  isResizing :: bool
  dragStartPos :: Point
  resizeHandle :: string
  initialCropBox :: CropBox
  cropBoxElement :: "string list option"
  listeners :: "(string \<times> string) list"
  animationFrames :: "CropBox list"

text \<open>A handler returns, or throws a \<open>TypeError\<close>; either way it leaves a state.\<close>

datatype Outcome = Returned Composable | TypeError Composable

definition classList_add :: "string \<Rightarrow> string list \<Rightarrow> string list" where
  "classList_add c cs = (if c \<in> set cs then cs else cs @ [c])"

definition classList_remove :: "string \<Rightarrow> string list \<Rightarrow> string list" where
  "classList_remove c cs = removeAll c cs"

definition addEventListener :: "string \<Rightarrow> string \<Rightarrow> Composable \<Rightarrow> Composable" where
  "addEventListener ty h st =
     (if (ty, h) \<in> set (listeners st) then st
      else st\<lparr>listeners := listeners st @ [(ty, h)]\<rparr>)"

definition removeEventListener :: "string \<Rightarrow> string \<Rightarrow> Composable \<Rightarrow> Composable" where
  "removeEventListener ty h st = st\<lparr>listeners := removeAll (ty, h) (listeners st)\<rparr>"

definition getContainerSize :: "Document \<Rightarrow> number" where
  "getContainerSize doc =
     (case preview_container_desktop doc of
        None \<Rightarrow> Fin 400
      | Some rect \<Rightarrow> Math_min (rect_width rect) (rect_height rect))"

definition minSize :: number where
  "minSize = Fin 50"

definition constrainCropBox :: "Document \<Rightarrow> CropBox \<Rightarrow> CropBox" where
  "constrainCropBox doc box =
     (let containerSize = getContainerSize doc;
          constrainedWidth = Math_max minSize (Math_min containerSize (width box));
          constrainedHeight = Math_max minSize (Math_min containerSize (height box));
          maxX = Math_max (Fin 0) (js_sub containerSize constrainedWidth);
          maxY = Math_max (Fin 0) (js_sub containerSize constrainedHeight);
          constrainedX = Math_max (Fin 0) (Math_min maxX (x box));
          constrainedY = Math_max (Fin 0) (Math_min maxY (y box))
      in \<lparr>x = constrainedX, y = constrainedY,
          width = constrainedWidth, height = constrainedHeight\<rparr>)"

text \<open>
  The block shared by \<open>startDrag\<close> and \<open>startResize\<close> that replaces a box of
  non-positive width or height.
\<close>

definition resetBox :: "Document \<Rightarrow> CropBox" where
  "resetBox doc =
     (let containerSize = getContainerSize doc;
          defaultSize =
            Math_max minSize (Math_floor (js_mul containerSize (round_double (3 / 10))));
          defaultOffset =
            Math_max (Fin 0) (Math_floor (js_div (js_sub containerSize defaultSize) (Fin 2)))
      in \<lparr>x = defaultOffset, y = defaultOffset,
          width = defaultSize, height = defaultSize\<rparr>)"

definition is_handle :: "string list option \<Rightarrow> bool" where
  "is_handle t =
     (case t of
        None \<Rightarrow> False
      | Some cs \<Rightarrow> ''crop-handle'' \<in> set cs \<or> ''crop-handle-desktop'' \<in> set cs
                   \<or> ''crop-handle-mobile'' \<in> set cs)"

definition startDrag :: "Document \<Rightarrow> Event \<Rightarrow> Composable \<Rightarrow> Outcome" where
  "startDrag doc event st =
     (if is_handle (target event) then Returned st
      else if js_le (width (cropBox (store st))) (Fin 0)
              \<or> js_le (height (cropBox (store st))) (Fin 0)
      then Returned (st\<lparr>store := updateCropBox (all_fields (resetBox doc)) (store st)\<rparr>)
      else
        (let st1 = st\<lparr>isDragging := True\<rparr> in
         case client event of
           None \<Rightarrow> TypeError st1
         | Some (clientX, clientY) \<Rightarrow>
             (let st2 = st1\<lparr>dragStartPos :=
                    (case preview_container_desktop doc of
                       Some rect \<Rightarrow>
                         \<lparr>x = js_sub (js_sub clientX (rect_left rect)) (x (cropBox (store st1))),
                          y = js_sub (js_sub clientY (rect_top rect)) (y (cropBox (store st1)))\<rparr>
                     | None \<Rightarrow>
                         \<lparr>x = js_sub clientX (x (cropBox (store st1))),
                          y = js_sub clientY (y (cropBox (store st1)))\<rparr>)\<rparr>;
                  st3 = st2\<lparr>cropBoxElement :=
                    map_option (classList_add ''dragging'') (cropBoxElement st2)\<rparr>
              in Returned
                   (addEventListener ''touchend'' ''stopDrag''
                     (addEventListener ''touchmove'' ''handleDrag''
                       (addEventListener ''mouseup'' ''stopDrag''
                         (addEventListener ''mousemove'' ''handleDrag'' st3)))))))"

definition requestAnimationFrame :: "CropBox \<Rightarrow> Composable \<Rightarrow> Composable" where
  "requestAnimationFrame newCropBox st =
     st\<lparr>animationFrames := animationFrames st @ [newCropBox]\<rparr>"

text \<open>
  The callback \<open>() => store.updateCropBox(constrainCropBox(newCropBox))\<close>, run on the
  page as it is when the frame comes.
\<close>

definition frameCallback :: "Document \<Rightarrow> CropBox \<Rightarrow> Composable \<Rightarrow> Composable" where
  "frameCallback doc newCropBox st =
     st\<lparr>store := updateCropBox (all_fields (constrainCropBox doc newCropBox)) (store st)\<rparr>"

definition runAnimationFrame :: "Document \<Rightarrow> Composable \<Rightarrow> Composable" where
  "runAnimationFrame doc st =
     fold (frameCallback doc) (animationFrames st) (st\<lparr>animationFrames := []\<rparr>)"

definition handleDrag :: "Document \<Rightarrow> Event \<Rightarrow> Composable \<Rightarrow> Outcome" where
  "handleDrag doc event st =
     (if \<not> isDragging st then Returned st
      else
        case client event of
          None \<Rightarrow> TypeError st
        | Some (clientX, clientY) \<Rightarrow>
            (case preview_container_desktop doc of
               Some rect \<Rightarrow>
                 (let newCropBox = (cropBox (store st))
                        \<lparr>x := js_sub (js_sub clientX (rect_left rect)) (x (dragStartPos st)),
                         y := js_sub (js_sub clientY (rect_top rect)) (y (dragStartPos st))\<rparr>
                  in Returned (requestAnimationFrame newCropBox st))
             | None \<Rightarrow> Returned st))"

definition stopDrag :: "Composable \<Rightarrow> Composable" where
  "stopDrag st =
     (let st1 = st\<lparr>isDragging := False\<rparr>;
          st2 = st1\<lparr>cropBoxElement :=
                  map_option (classList_remove ''dragging'') (cropBoxElement st1)\<rparr>
      in removeEventListener ''touchend'' ''stopDrag''
           (removeEventListener ''touchmove'' ''handleDrag''
             (removeEventListener ''mouseup'' ''stopDrag''
               (removeEventListener ''mousemove'' ''handleDrag'' st2))))"

definition startResize :: "Document \<Rightarrow> Event \<Rightarrow> string \<Rightarrow> Composable \<Rightarrow> Outcome" where
  "startResize doc event handle st =
     (let st1 =
            (if js_le (width (cropBox (store st))) (Fin 0)
                \<or> js_le (height (cropBox (store st))) (Fin 0)
             then st\<lparr>store := updateCropBox (all_fields (resetBox doc)) (store st)\<rparr>
             else st);
          st2 = st1\<lparr>isResizing := True, resizeHandle := handle,
                     initialCropBox := cropBox (store st1)\<rparr>
      in case client event of
           None \<Rightarrow> TypeError st2
         | Some (clientX, clientY) \<Rightarrow>
             (let st3 = st2\<lparr>dragStartPos :=
                    (case preview_container_desktop doc of
                       Some rect \<Rightarrow>
                         \<lparr>x = js_sub clientX (rect_left rect),
                          y = js_sub clientY (rect_top rect)\<rparr>
                     | None \<Rightarrow> \<lparr>x = clientX, y = clientY\<rparr>)\<rparr>;
                  st4 = st3\<lparr>cropBoxElement :=
                    map_option (classList_add ''resizing'') (cropBoxElement st3)\<rparr>
              in Returned
                   (addEventListener ''touchend'' ''stopResize''
                     (addEventListener ''touchmove'' ''handleResize''
                       (addEventListener ''mouseup'' ''stopResize''
                         (addEventListener ''mousemove'' ''handleResize'' st4))))))"

text \<open>
  The candidate box of \<open>handleResize\<close>: the snapshot moved by the \<open>switch\<close> on the
  handle (no case matches any other string), then the two \<open>if\<close>s on the minimum size.
\<close>

definition applyHandle :: "string \<Rightarrow> number \<Rightarrow> number \<Rightarrow> CropBox \<Rightarrow> CropBox" where
  "applyHandle handle deltaX deltaY newCropBox =
     (if handle = ''nw'' then
        newCropBox\<lparr>x := js_add (x newCropBox) deltaX, y := js_add (y newCropBox) deltaY,
                   width := js_sub (width newCropBox) deltaX,
                   height := js_sub (height newCropBox) deltaY\<rparr>
      else if handle = ''ne'' then
        newCropBox\<lparr>y := js_add (y newCropBox) deltaY,
                   width := js_add (width newCropBox) deltaX,
                   height := js_sub (height newCropBox) deltaY\<rparr>
      else if handle = ''sw'' then
        newCropBox\<lparr>x := js_add (x newCropBox) deltaX,
                   width := js_sub (width newCropBox) deltaX,
                   height := js_add (height newCropBox) deltaY\<rparr>
      else if handle = ''se'' then
        newCropBox\<lparr>width := js_add (width newCropBox) deltaX,
                   height := js_add (height newCropBox) deltaY\<rparr>
      else newCropBox)"

definition floorMinSize :: "CropBox \<Rightarrow> CropBox" where
  "floorMinSize newCropBox =
     (let b1 = (if js_lt (width newCropBox) minSize
                then newCropBox\<lparr>width := minSize\<rparr> else newCropBox)
      in if js_lt (height b1) minSize then b1\<lparr>height := minSize\<rparr> else b1)"

definition resizeCandidate :: "string \<Rightarrow> number \<Rightarrow> number \<Rightarrow> CropBox \<Rightarrow> CropBox" where
  "resizeCandidate handle deltaX deltaY initial =
     floorMinSize (applyHandle handle deltaX deltaY initial)"

definition handleResize :: "Document \<Rightarrow> Event \<Rightarrow> Composable \<Rightarrow> Outcome" where
  "handleResize doc event st =
     (if \<not> isResizing st then Returned st
      else
        case client event of
          None \<Rightarrow> TypeError st
        | Some (clientX, clientY) \<Rightarrow>
            (let (deltaX, deltaY) =
                   (case preview_container_desktop doc of
                      Some rect \<Rightarrow>
                        (js_sub (js_sub clientX (rect_left rect)) (x (dragStartPos st)),
                         js_sub (js_sub clientY (rect_top rect)) (y (dragStartPos st)))
                    | None \<Rightarrow>
                        (js_sub clientX (x (dragStartPos st)),
                         js_sub clientY (y (dragStartPos st))));
                 newCropBox = resizeCandidate (resizeHandle st) deltaX deltaY (initialCropBox st)
             in Returned (requestAnimationFrame newCropBox st)))"

definition stopResize :: "Composable \<Rightarrow> Composable" where
  "stopResize st =
     (let st1 = st\<lparr>isResizing := False, resizeHandle := []\<rparr>;
          st2 = st1\<lparr>cropBoxElement :=
                  map_option (classList_remove ''resizing'') (cropBoxElement st1)\<rparr>
      in removeEventListener ''touchend'' ''stopResize''
           (removeEventListener ''touchmove'' ''handleResize''
             (removeEventListener ''mouseup'' ''stopResize''
               (removeEventListener ''mousemove'' ''handleResize'' st2))))"

definition resetCropBox :: "Document \<Rightarrow> Composable \<Rightarrow> Composable" where
  "resetCropBox doc st =
     (let containerSize = getContainerSize doc;
          size = Math_floor (js_mul containerSize (round_double (6 / 10)));
          offset = Math_floor (js_div (js_sub containerSize size) (Fin 2))
      in st\<lparr>store := updateCropBox
                 \<lparr>x_opt = Some offset, y_opt = Some offset,
                  width_opt = Some size, height_opt = Some size\<rparr> (store st)\<rparr>)"

section \<open>Fitting the image into the square container\<close>

text \<open>
  \<open>adjustCropBoxToImage\<close>, the upload handler and \<open>setCropBoxToFullImage\<close> each
  contain the same block, which computes the displayed size of the image and its
  offset in the container from the container size and the size of the image.
\<close>

record DisplayMapping =
  imageDisplayWidth :: number
  imageDisplayHeight :: number
  offsetX :: number
  offsetY :: number

definition displayMapping :: "number \<Rightarrow> number \<Rightarrow> number \<Rightarrow> DisplayMapping" where
  "displayMapping containerSize imageWidth imageHeight =
     (let imageAspectRatio = js_div imageWidth imageHeight;
          containerAspectRatio = Fin 1
      in if js_gt imageAspectRatio containerAspectRatio then
           \<lparr>imageDisplayWidth = containerSize,
            imageDisplayHeight = js_div containerSize imageAspectRatio,
            offsetX = Fin 0,
            offsetY = js_div (js_sub containerSize (js_div containerSize imageAspectRatio))
                        (Fin 2)\<rparr>
         else
           \<lparr>imageDisplayWidth = js_mul containerSize imageAspectRatio,
            imageDisplayHeight = containerSize,
            offsetX = js_div (js_sub containerSize (js_mul containerSize imageAspectRatio))
                        (Fin 2),
            offsetY = Fin 0\<rparr>)"

definition adjustCropBoxToImage :: "Document \<Rightarrow> Composable \<Rightarrow> Composable" where
  "adjustCropBoxToImage doc st =
     (if \<not> hasImage (store st) then st
      else
        (let containerSize = getContainerSize doc;
             m = displayMapping containerSize (image_width (image_data (store st)))
                   (image_height (image_data (store st)));
             margin = Fin 2;
             cropX = Math_max (Fin 0) (js_add (offsetX m) margin);
             cropY = Math_max (Fin 0) (js_add (offsetY m) margin);
             cropWidth = Math_max minSize
                           (js_sub (imageDisplayWidth m) (js_mul margin (Fin 2)));
             cropHeight = Math_max minSize
                            (js_sub (imageDisplayHeight m) (js_mul margin (Fin 2)))
         in st\<lparr>store := updateCropBox
                    \<lparr>x_opt = Some cropX, y_opt = Some cropY,
                     width_opt = Some cropWidth, height_opt = Some cropHeight\<rparr>
                    (store st)\<rparr>))"

text \<open>
  \<open>setCropBoxToFullImage\<close> of the page component, called once the cropped image has
  loaded. It takes the container size from the mobile or the desktop composable; the
  mobile one is not part of the sources, so its answer \<open>mobileSize\<close> is a parameter.
\<close>

definition setCropBoxToFullImage :: "bool \<Rightarrow> number \<Rightarrow> Document \<Rightarrow> Store \<Rightarrow> Store" where
  "setCropBoxToFullImage isMobile mobileSize doc s =
     (if \<not> hasImage s then s
      else
        (let containerSize = (if isMobile then mobileSize else getContainerSize doc);
             m = displayMapping containerSize (image_width (image_data s))
                   (image_height (image_data s));
             margin = Fin 2
         in updateCropBox
              \<lparr>x_opt = Some (js_add (offsetX m) margin),
               y_opt = Some (js_add (offsetY m) margin),
               width_opt = Some (js_sub (imageDisplayWidth m) (js_mul margin (Fin 2))),
               height_opt = Some (js_sub (imageDisplayHeight m) (js_mul margin (Fin 2)))\<rparr>
              s))"

text \<open>
  The upload composable has its own \<open>getContainerSize\<close>, which picks the container
  by the width of the window.
\<close>

definition getContainerSize_upload :: "Document \<Rightarrow> number" where
  "getContainerSize_upload doc =
     (let isMobile = js_lt (innerWidth doc) (Fin 768);
          previewContainer =
            (if isMobile then preview_container_mobile doc
             else preview_container_desktop doc)
      in case previewContainer of
           None \<Rightarrow> Fin 400
         | Some rect \<Rightarrow> Math_min (rect_width rect) (rect_height rect))"

text \<open>
  The last step of \<open>handleFileUpload\<close>, after the image and its dimensions have been
  stored: the crop box is placed on the displayed image.
\<close>

definition handleFileUpload_cropBox :: "Document \<Rightarrow> number \<Rightarrow> number \<Rightarrow> Store \<Rightarrow> Store" where
  "handleFileUpload_cropBox doc dimensions_width dimensions_height s =
     (let containerSize = getContainerSize_upload doc;
          m = displayMapping containerSize dimensions_width dimensions_height;
          margin = Fin 3
      in updateCropBox
           \<lparr>x_opt = Some (js_add (offsetX m) margin),
            y_opt = Some (js_add (offsetY m) margin),
            width_opt = Some (js_sub (imageDisplayWidth m) (js_mul margin (Fin 2))),
            height_opt = Some (js_sub (imageDisplayHeight m) (js_mul margin (Fin 2)))\<rparr>
           s)"

section \<open>Initial state\<close>

text \<open>The store as \<open>usePicCutStore\<close> creates it, and the refs as the composable creates them.\<close>

definition usePicCutStore :: Store where
  "usePicCutStore =
     \<lparr>cropBox = \<lparr>x = Fin 50, y = Fin 50, width = Fin 300, height = Fin 300\<rparr>,
      image_data = \<lparr>url = None, image_width = Fin 0, image_height = Fin 0\<rparr>\<rparr>"

definition useCropBoxDesktop :: "Store \<Rightarrow> Composable" where
  "useCropBoxDesktop s =
     \<lparr>store = s, isDragging = False, isResizing = False,
      dragStartPos = \<lparr>x = Fin 0, y = Fin 0\<rparr>, resizeHandle = [],
      initialCropBox = \<lparr>x = Fin 0, y = Fin 0, width = Fin 0, height = Fin 0\<rparr>,
      cropBoxElement = None, listeners = [], animationFrames = []\<rparr>"

text \<open>The state a handler leaves behind, whether it returned or threw.\<close>

fun state_of :: "Outcome \<Rightarrow> Composable" where
  "state_of (Returned st) = st"
| "state_of (TypeError st) = st"

text \<open>
  Pages used in the examples: one whose desktop preview container is laid out as a
  square of the given side, and one without any preview container.
\<close>

abbreviation desktop_page :: "real \<Rightarrow> Document" where
  "desktop_page c \<equiv>
     \<lparr>innerWidth = Fin 1280,
      preview_container_desktop =
        Some \<lparr>rect_left = Fin 8, rect_top = Fin 8, rect_width = Fin c, rect_height = Fin c\<rparr>,
      preview_container_mobile = None\<rparr>"

abbreviation bare_page :: Document where
  "bare_page \<equiv>
     \<lparr>innerWidth = Fin 1280, preview_container_desktop = None,
      preview_container_mobile = None\<rparr>"

section \<open>Facts about rounding\<close>

lemma round_half_even_int: "round_half_even (of_int n) = n"
  by (simp add: round_half_even_def)

lemma round_half_even_le: "q \<le> of_int M \<Longrightarrow> round_half_even q \<le> M"
  unfolding round_half_even_def Let_def
  by (auto simp: floor_le_iff)

lemma round_half_even_ge:
  assumes "of_int M \<le> q"
  shows "M \<le> round_half_even q"
proof -
  have "M \<le> \<lfloor>q\<rfloor>" using assms by (simp add: le_floor_iff)
  then show ?thesis by (simp add: round_half_even_def Let_def)
qed

lemma powr_powi: "(2::real) powr (of_int k) = 2 powi k"
  by (rule powr_real_of_int') simp_all

lemma powr_powi_Suc: "(2::real) powr (of_int k + 1) = 2 powi (k + 1)"
  using powr_powi [of "k + 1"] by simp

lemma floor_log2_bounds:
  assumes "0 < r"
  shows "2 powi \<lfloor>log 2 r\<rfloor> \<le> r" and "r < 2 powi (\<lfloor>log 2 r\<rfloor> + 1)"
proof -
  have "2 powr (of_int \<lfloor>log 2 r\<rfloor>) \<le> r \<and> r < 2 powr (of_int \<lfloor>log 2 r\<rfloor> + 1)"
    using floor_log_eq_powr_iff [of r 2 "\<lfloor>log 2 r\<rfloor>"] assms by simp
  then show "2 powi \<lfloor>log 2 r\<rfloor> \<le> r" and "r < 2 powi (\<lfloor>log 2 r\<rfloor> + 1)"
    unfolding powr_powi powr_powi_Suc by blast+
qed

lemma floor_log2_eq:
  assumes "2 powi L \<le> r" and "r < 2 powi (L + 1)"
  shows "\<lfloor>log 2 r\<rfloor> = L"
proof -
  have "0 < r" using assms(1) zero_less_power_int [of "2::real" L] by linarith
  moreover have "2 powr (of_int L) \<le> r \<and> r < 2 powr (of_int L + 1)"
    unfolding powr_powi powr_powi_Suc using assms by blast
  ultimately show ?thesis
    using floor_log_eq_powr_iff [of r 2 L] by simp
qed

lemma double_exponent_mono:
  assumes "0 < a" and "a \<le> b"
  shows "double_exponent a \<le> double_exponent b"
proof -
  have "log 2 a \<le> log 2 b" using assms by simp
  then have "\<lfloor>log 2 a\<rfloor> \<le> \<lfloor>log 2 b\<rfloor>" by (rule floor_mono)
  then show ?thesis using assms by (simp add: double_exponent_def)
qed


lemma two_powi_pos [simp]: "0 < (2::real) powi k"
  by simp

lemma two_powi_add: "(2::real) powi (a + b) = 2 powi a * 2 powi b"
  by (rule power_int_add) simp

lemma round_real_nonneg:
  assumes "0 \<le> r"
  shows "0 \<le> round_real r"
proof (cases "r = 0")
  case True
  then show ?thesis by (simp add: round_real_def)
next
  case False
  have "of_int 0 \<le> r / 2 powi double_exponent r" using assms by simp
  then have "0 \<le> round_half_even (r / 2 powi double_exponent r)"
    by (rule round_half_even_ge)
  then show ?thesis using False by (simp add: round_real_def)
qed

text \<open>A number that is a whole multiple of its own unit is not changed.\<close>

lemma round_real_fixed:
  assumes "r = of_int m * 2 powi double_exponent r"
  shows "round_real r = r"
proof (cases "r = 0")
  case True
  then show ?thesis by (simp add: round_real_def)
next
  case False
  have "r / 2 powi double_exponent r = of_int m"
    using assms by (metis nonzero_eq_divide_eq two_powi_pos less_irrefl)
  then have "round_half_even (r / 2 powi double_exponent r) = m"
    by (simp add: round_half_even_int)
  then show ?thesis using False assms by (simp add: round_real_def)
qed

text \<open>A rounded number is a whole multiple of its unit: no rounding crosses it.\<close>

lemma round_real_le:
  assumes "0 \<le> r" and "r \<le> d" and "round_real d = d"
  shows "round_real r \<le> d"
proof (cases "r = 0")
  case True
  then show ?thesis using assms by (simp add: round_real_def)
next
  case False
  then have pos: "0 < r" "0 < d" "d \<noteq> 0" using assms by simp_all
  let ?e = "double_exponent r" and ?k = "double_exponent d"
  let ?m = "round_half_even (d / 2 powi ?k)"
  have ek: "?e \<le> ?k" using pos(1) assms(2) by (rule double_exponent_mono)
  have d: "d = of_int ?m * 2 powi ?k"
    using assms(3) pos(3) by (simp add: round_real_def)
  have "2 powi ?k = 2 powi (?k - ?e) * (2::real) powi ?e"
    using two_powi_add [of "?k - ?e" ?e] by simp
  also have "(2::real) powi (?k - ?e) = of_int (2 ^ nat (?k - ?e))"
    using ek by (simp add: power_int_def)
  finally have dm: "d = of_int (?m * 2 ^ nat (?k - ?e)) * 2 powi ?e"
    using d by simp
  then have "d / 2 powi ?e = of_int (?m * 2 ^ nat (?k - ?e))"
    by (metis nonzero_eq_divide_eq two_powi_pos less_irrefl)
  moreover have "r / 2 powi ?e \<le> d / 2 powi ?e"
    using assms(2) by (simp add: divide_right_mono)
  ultimately have "round_half_even (r / 2 powi ?e) \<le> ?m * 2 ^ nat (?k - ?e)"
    by (intro round_half_even_le) simp
  then have le: "of_int (round_half_even (r / 2 powi ?e)) * 2 powi ?e
      \<le> of_int (?m * 2 ^ nat (?k - ?e)) * (2::real) powi ?e"
    by (intro mult_right_mono) (simp_all only: of_int_le_iff, simp)
  have "round_real r = of_int (round_half_even (r / 2 powi ?e)) * 2 powi ?e"
    using False by (simp add: round_real_def)
  also note le
  also note dm [symmetric]
  finally show ?thesis .
qed

lemma round_real_ge:
  assumes "0 \<le> d" and "d \<le> r" and "round_real d = d"
  shows "d \<le> round_real r"
proof (cases "d = 0")
  case True
  then show ?thesis using assms round_real_nonneg [of r] by simp
next
  case False
  then have pos: "0 < d" "0 < r" "r \<noteq> 0" using assms by simp_all
  let ?e = "double_exponent r" and ?k = "double_exponent d"
  let ?m = "round_half_even (d / 2 powi ?k)"
  have ke: "?k \<le> ?e" using pos(1) assms(2) by (rule double_exponent_mono)
  have rr: "round_real r = of_int (round_half_even (r / 2 powi ?e)) * 2 powi ?e"
    using pos(3) by (simp add: round_real_def)
  show ?thesis
  proof (cases "?k = ?e")
    case True
    have d: "d = of_int ?m * 2 powi ?e"
      using assms(3) False True by (simp add: round_real_def)
    then have "d / 2 powi ?e = of_int ?m"
      by (metis nonzero_eq_divide_eq two_powi_pos less_irrefl)
    moreover have "d / 2 powi ?e \<le> r / 2 powi ?e"
      using assms(2) by (simp add: divide_right_mono)
    ultimately have "?m \<le> round_half_even (r / 2 powi ?e)"
      by (intro round_half_even_ge) simp
    then have "of_int ?m * (2::real) powi ?e
        \<le> of_int (round_half_even (r / 2 powi ?e)) * 2 powi ?e"
      by (intro mult_right_mono) (simp_all only: of_int_le_iff, simp)
    then show ?thesis using d rr by simp
  next
    case False
    with ke have lt: "?k < ?e" by simp
    then have e: "?e = \<lfloor>log 2 r\<rfloor> - 52" and k: "\<lfloor>log 2 d\<rfloor> - 52 \<le> ?k"
      using pos by (auto simp: double_exponent_def max_def split: if_splits)
    have "d < 2 powi (\<lfloor>log 2 d\<rfloor> + 1)" using pos(1) by (rule floor_log2_bounds)
    also have "\<dots> \<le> 2 powi (?e + 52)"
      using k lt by (intro power_int_increasing) simp_all
    finally have d: "d < 2 powi (?e + 52)" .
    have "2 powi (?e + 52) \<le> r"
      using floor_log2_bounds(1) [OF pos(2)] e by simp
    then have "2 powi 52 * 2 powi ?e \<le> r"
      using two_powi_add [of 52 ?e] by (simp add: add.commute)
    then have "of_int (2 ^ 52) \<le> r / 2 powi ?e"
      by (simp add: pos_le_divide_eq)
    then have "2 ^ 52 \<le> round_half_even (r / 2 powi ?e)"
      by (rule round_half_even_ge)
    then have "of_int (2 ^ 52) * (2::real) powi ?e
        \<le> of_int (round_half_even (r / 2 powi ?e)) * 2 powi ?e"
      by (intro mult_right_mono) (simp_all only: of_int_le_iff, simp)
    then have "2 powi (?e + 52) \<le> round_real r"
      using rr two_powi_add [of 52 ?e] by (simp add: add.commute)
    with d show ?thesis by simp
  qed
qed

lemma two_powi_less_imp:
  assumes "(2::real) powi a \<le> v" and "v < 2 powi b"
  shows "a < b"
proof (rule ccontr)
  assume "\<not> a < b"
  then have "(2::real) powi b \<le> 2 powi a"
    by (intro power_int_increasing) simp_all
  with assms show False by linarith
qed

text \<open>Every integer of magnitude below \<open>2^53\<close> is a double.\<close>

lemma round_real_int:
  assumes "\<bar>n\<bar> < 2 ^ 53"
  shows "round_real (of_int n) = of_int n"
proof (cases "n = 0")
  case True
  then show ?thesis by (simp add: round_real_def)
next
  case False
  let ?r = "of_int n :: real"
  let ?L = "\<lfloor>log 2 \<bar>?r\<bar>\<rfloor>"
  let ?e = "double_exponent ?r"
  have pos: "0 < \<bar>?r\<bar>" using False by simp
  have "(of_int \<bar>n\<bar> :: real) < of_int (2 ^ 53)"
    using assms by (simp only: of_int_less_iff)
  then have "\<bar>?r\<bar> < 2 powi 53" by simp
  with floor_log2_bounds(1) [OF pos] have "?L < 53" by (rule two_powi_less_imp)
  then have e: "?e \<le> 0" by (simp add: double_exponent_def)
  have "(2::real) powi ?e * 2 powi (- ?e) = 1"
    using two_powi_add [of ?e "- ?e"] by simp
  moreover have "(2::real) powi (- ?e) = of_int (2 ^ nat (- ?e))"
    using e by (simp add: power_int_def)
  ultimately have "?r = of_int (n * 2 ^ nat (- ?e)) * 2 powi ?e"
    by (simp add: mult.assoc mult.commute)
  then show ?thesis by (rule round_real_fixed)
qed

lemma round_double_not_NaN [simp]: "round_double r \<noteq> NaN"
  by (simp add: round_double_def signed_inf_def)

lemma round_double_FinD:
  assumes "round_double d = Fin d"
  shows "round_real d = d" and "\<bar>d\<bar> < 2 ^ 1024"
  using assms by (auto simp: round_double_def signed_inf_def split: if_splits)

lemma round_double_int:
  assumes "\<bar>n\<bar> < 2 ^ 53"
  shows "round_double (of_int n) = Fin (of_int n)"
proof -
  have "(of_int \<bar>n\<bar> :: real) < of_int (2 ^ 53)"
    using assms by (simp only: of_int_less_iff)
  then have "\<bar>of_int n :: real\<bar> < 2 ^ 53" by simp
  also have "\<dots> \<le> (2::real) ^ 1024" by (intro power_increasing) simp_all
  finally show ?thesis
    by (simp add: round_double_def round_real_int [OF assms])
qed

lemma round_double_numeral [simp]:
  "numeral k < (2::int) ^ 53 \<Longrightarrow> round_double (numeral k) = Fin (numeral k)"
  using round_double_int [of "numeral k"] by simp

lemma round_double_neg_numeral [simp]:
  "numeral k < (2::int) ^ 53 \<Longrightarrow> round_double (- numeral k) = Fin (- numeral k)"
  using round_double_int [of "- numeral k"] by simp

lemma round_double_0 [simp]: "round_double 0 = Fin 0"
  using round_double_int [of 0] by simp

lemma round_double_1 [simp]: "round_double 1 = Fin 1"
  using round_double_int [of 1] by simp

lemma round_double_le:
  assumes "0 \<le> r" and "r \<le> d" and "round_double d = Fin d"
  shows "\<exists>s. round_double r = Fin s \<and> 0 \<le> s \<and> s \<le> d"
proof -
  note d = round_double_FinD [OF assms(3)]
  have lo: "0 \<le> round_real r" using assms(1) by (rule round_real_nonneg)
  have hi: "round_real r \<le> d" using assms(1,2) d(1) by (rule round_real_le)
  from lo hi d(2) have "\<not> 2 ^ 1024 \<le> \<bar>round_real r\<bar>" by simp
  then have "round_double r = Fin (round_real r)" by (simp add: round_double_def)
  with lo hi show ?thesis by blast
qed

lemma round_double_ge:
  assumes "0 \<le> d" and "d \<le> r" and "round_double d = Fin d"
  shows "round_double r = PosInf \<or> (\<exists>s. round_double r = Fin s \<and> d \<le> s)"
proof -
  have "d \<le> round_real r"
    using assms(1,2) round_double_FinD(1) [OF assms(3)] by (rule round_real_ge)
  moreover have "\<not> r < 0" using assms by simp
  ultimately show ?thesis by (simp add: round_double_def signed_inf_def)
qed

text \<open>Rounding a given number, from the binade \<open>L\<close> it lies in.\<close>

lemma round_double_eval:
  assumes "2 powi L \<le> \<bar>r\<bar>" and "\<bar>r\<bar> < 2 powi (L + 1)"
    and "e = max (- 1074) (L - 52)" and "e \<le> 970"
  shows "round_double r = Fin (of_int (round_half_even (r / 2 powi e)) * 2 powi e)"
proof -
  have "0 < \<bar>r\<bar>" using assms(1) two_powi_pos [of L] by linarith
  then have nz: "r \<noteq> 0" by simp
  have "\<lfloor>log 2 \<bar>r\<bar>\<rfloor> = L" using assms(1,2) by (rule floor_log2_eq)
  then have e: "double_exponent r = e" by (simp add: double_exponent_def assms(3))
  let ?R = "round_half_even (r / 2 powi e)"
  have rr: "round_real r = of_int ?R * 2 powi e"
    using nz e by (simp add: round_real_def)
  have "(2::real) powi (L + 1) \<le> 2 powi (e + 53)"
    using assms(3) by (intro power_int_increasing) simp_all
  also have "\<dots> = 2 ^ 53 * 2 powi e"
    using two_powi_add [of 53 e] by (simp add: add.commute)
  finally have "\<bar>r\<bar> < 2 ^ 53 * 2 powi e" using assms(2) by simp
  then have "\<bar>r\<bar> / 2 powi e < 2 ^ 53"
    by (simp add: pos_divide_less_eq)
  moreover have "\<bar>r / 2 powi e\<bar> = \<bar>r\<bar> / 2 powi e"
    by simp
  ultimately have "\<bar>r / 2 powi e\<bar> < 2 ^ 53"
    by (simp only:)
  then have "r / 2 powi e \<le> 2 ^ 53" "- (2 ^ 53) \<le> r / 2 powi e"
    by linarith+
  then have q: "r / 2 powi e \<le> of_int (2 ^ 53)" "of_int (- (2 ^ 53)) \<le> r / 2 powi e"
    by simp_all
  have "?R \<le> 2 ^ 53" "- (2 ^ 53) \<le> ?R"
    using round_half_even_le [OF q(1)] round_half_even_ge [OF q(2)] by simp_all
  then have "\<bar>?R\<bar> \<le> 2 ^ 53" by simp
  then have "(of_int \<bar>?R\<bar> :: real) \<le> of_int (2 ^ 53)"
    by (simp only: of_int_le_iff)
  then have "\<bar>of_int ?R :: real\<bar> \<le> 2 ^ 53" by simp
  then have "\<bar>of_int ?R * (2::real) powi e\<bar> \<le> 2 ^ 53 * 2 powi e"
    by (simp add: abs_mult mult_right_mono)
  also have "\<dots> \<le> 2 ^ 53 * (2::real) powi 970"
    using assms(4) by (intro mult_left_mono power_int_increasing) simp_all
  also have "\<dots> < (2::real) ^ 1024" by simp
  finally show ?thesis by (simp add: round_double_def rr)
qed


lemma round_double_evalI:
  assumes "2 powi L \<le> \<bar>r\<bar>" and "\<bar>r\<bar> < 2 powi (L + 1)"
    and "e = max (- 1074) (L - 52)" and "e \<le> 970"
    and "round_half_even (r / 2 powi e) = m" and "v = of_int m * 2 powi e"
  shows "round_double r = Fin v"
  using round_double_eval [OF assms(1-4)] assms(5,6) by simp

text \<open>The literal \<open>0.3\<close> of the source.\<close>

lemma three_tenths: "round_double (3 / 10) = Fin (5404319552844595 / 2 ^ 54)"
  by (rule round_double_evalI [where L = "- 2" and e = "- 54" and m = 5404319552844595])
     (simp_all add: round_half_even_def power_int_minus)

section \<open>Facts about the number operations\<close>

lemma js_le_NaN_right [simp]: "js_le a NaN = False"
  by (cases a) simp_all

lemma js_lt_NaN_right [simp]: "js_lt a NaN = False"
  by (cases a) simp_all

lemma clamp_Fin:
  assumes "lo \<le> hi" and "v \<noteq> NaN"
  shows "\<exists>r. Math_max (Fin lo) (Math_min (Fin hi) v) = Fin r \<and> lo \<le> r \<and> r \<le> hi"
  using assms by (cases v) (auto simp: Math_max_def Math_min_def)

lemma size_clamp_Fin:
  assumes "v \<noteq> NaN"
  shows "\<exists>r. Math_max (Fin lo) (Math_min (Fin hi) v) = Fin r \<and> lo \<le> r"
  using assms by (cases v) (auto simp: Math_max_def Math_min_def)

lemma Math_max_Fin: "Math_max (Fin a) (Fin b) = Fin (max a b)"
  by (simp add: Math_max_def max_def)

lemma Math_min_Fin: "Math_min (Fin a) (Fin b) = Fin (min a b)"
  by (simp add: Math_min_def min_def)

lemma clamp_idem:
  "Math_max lo (Math_min hi (Math_max lo (Math_min hi v))) = Math_max lo (Math_min hi v)"
  by (cases lo; cases hi; cases v) (auto simp: Math_max_def Math_min_def)

lemma Math_max_NaN [simp]: "Math_max NaN b = NaN" "Math_max a NaN = NaN"
  by (simp_all add: Math_max_def)

lemma Math_min_NaN [simp]: "Math_min NaN b = NaN" "Math_min a NaN = NaN"
  by (simp_all add: Math_min_def)

lemma Math_max_not_NaN: "a \<noteq> NaN \<Longrightarrow> b \<noteq> NaN \<Longrightarrow> Math_max a b \<noteq> NaN"
  by (simp add: Math_max_def)

lemma Math_min_not_NaN: "a \<noteq> NaN \<Longrightarrow> b \<noteq> NaN \<Longrightarrow> Math_min a b \<noteq> NaN"
  by (simp add: Math_min_def)

lemma js_sub_NaN [simp]: "js_sub a NaN = NaN"
  by (cases a) simp_all

text \<open>
  One axis of \<open>constrainCropBox\<close>: the size clamped between the minimum and the
  container, then the position clamped between zero and what the rounded subtraction
  leaves of the container.
\<close>

lemma axis_no_NaN:
  assumes "sz \<noteq> NaN" and "pos \<noteq> NaN"
  shows "\<exists>r. Math_max (Fin 50) (Math_min (Fin c) sz) = Fin r \<and> 50 \<le> r
           \<and> Math_max (Fin 0)
                (Math_min (Math_max (Fin 0)
                   (js_sub (Fin c) (Math_max (Fin 50) (Math_min (Fin c) sz)))) pos) \<noteq> NaN"
proof -
  from size_clamp_Fin [OF assms(1)] obtain r
    where r: "Math_max (Fin 50) (Math_min (Fin c) sz) = Fin r" "50 \<le> r"
    by blast
  have "Math_max (Fin 0) (js_sub (Fin c) (Fin r)) \<noteq> NaN"
    by (intro Math_max_not_NaN) simp_all
  then have "Math_max (Fin 0) (Math_min (Math_max (Fin 0) (js_sub (Fin c) (Fin r))) pos) \<noteq> NaN"
    using assms(2) by (intro Math_max_not_NaN Math_min_not_NaN) simp_all
  with r show ?thesis by simp
qed

lemma axis_contained:
  assumes "round_double c = Fin c" and "50 \<le> c" and "sz \<noteq> NaN" and "pos \<noteq> NaN"
  shows "\<exists>r s q. Math_max (Fin 50) (Math_min (Fin c) sz) = Fin r \<and> 50 \<le> r \<and> r \<le> c
           \<and> js_sub (Fin c) (Fin r) = Fin s \<and> 0 \<le> s \<and> s \<le> c
           \<and> Math_max (Fin 0)
                (Math_min (Math_max (Fin 0)
                   (js_sub (Fin c) (Math_max (Fin 50) (Math_min (Fin c) sz)))) pos) = Fin q
           \<and> 0 \<le> q \<and> q \<le> s"
proof -
  from clamp_Fin [OF assms(2) assms(3)] obtain r
    where r: "Math_max (Fin 50) (Math_min (Fin c) sz) = Fin r" "50 \<le> r" "r \<le> c"
    by blast
  have "0 \<le> c - r" "c - r \<le> c" using r(2,3) by simp_all
  from round_double_le [OF this assms(1)] obtain s
    where s: "js_sub (Fin c) (Fin r) = Fin s" "0 \<le> s" "s \<le> c"
    by auto
  from clamp_Fin [OF s(2) assms(4)] obtain q
    where q: "Math_max (Fin 0) (Math_min (Fin s) pos) = Fin q" "0 \<le> q" "q \<le> s"
    by blast
  have "Math_max (Fin 0) (Fin s) = Fin s" using s(2) by (simp add: Math_max_Fin)
  with r s q show ?thesis by simp
qed

section \<open>Containment after \<open>constrainCropBox\<close>\<close>

text \<open>
  Claim C1, as the code has it. \<open>constrainCropBox\<close> puts the minimum size before the
  container (\<open>Math.max(minSize, ...)\<close> is the outer call, and \<open>maxX\<close> is guarded by
  \<open>Math.max(0, ...)\<close> for a container smaller than the box), it has no test for
  \<open>NaN\<close>, and it bounds \<open>x\<close> by the rounded difference
  \<open>containerSize - constrainedWidth\<close>. So, for a container side that is a finite
  number of at least \<open>minSize\<close> and an input box without a \<open>NaN\<close> field (infinite
  fields are clamped like any other), the returned box has \<open>x \<ge> 0\<close>, \<open>y \<ge> 0\<close>,
  width and height between \<open>minSize\<close> and the container side,
  \<open>x \<le> containerSize - width\<close> and \<open>y \<le> containerSize - height\<close> with the
  subtraction as the code computes it; and where that subtraction is exact,
  \<open>x + width \<le> containerSize\<close> holds, for the exact sum and for the computed one (and
  the same for \<open>y\<close> and the height).
\<close>

theorem constrainCropBox_containment:
  assumes "getContainerSize doc = Fin c" and "round_double c = Fin c" and "50 \<le> c"
    and "x box \<noteq> NaN" and "y box \<noteq> NaN"
    and "width box \<noteq> NaN" and "height box \<noteq> NaN"
  shows "js_ge (x (constrainCropBox doc box)) (Fin 0)
       \<and> js_ge (y (constrainCropBox doc box)) (Fin 0)
       \<and> js_ge (width (constrainCropBox doc box)) minSize
       \<and> js_ge (height (constrainCropBox doc box)) minSize
       \<and> js_le (width (constrainCropBox doc box)) (getContainerSize doc)
       \<and> js_le (height (constrainCropBox doc box)) (getContainerSize doc)
       \<and> js_le (x (constrainCropBox doc box))
            (js_sub (getContainerSize doc) (width (constrainCropBox doc box)))
       \<and> js_le (y (constrainCropBox doc box))
            (js_sub (getContainerSize doc) (height (constrainCropBox doc box)))
       \<and> (\<forall>qx rw. x (constrainCropBox doc box) = Fin qx
              \<and> width (constrainCropBox doc box) = Fin rw
              \<and> js_sub (getContainerSize doc) (width (constrainCropBox doc box)) = Fin (c - rw)
            \<longrightarrow> qx + rw \<le> c
              \<and> js_le (js_add (x (constrainCropBox doc box)) (width (constrainCropBox doc box)))
                   (getContainerSize doc))
       \<and> (\<forall>qy rh. y (constrainCropBox doc box) = Fin qy
              \<and> height (constrainCropBox doc box) = Fin rh
              \<and> js_sub (getContainerSize doc) (height (constrainCropBox doc box)) = Fin (c - rh)
            \<longrightarrow> qy + rh \<le> c
              \<and> js_le (js_add (y (constrainCropBox doc box)) (height (constrainCropBox doc box)))
                   (getContainerSize doc))"
proof -
  from axis_contained [OF assms(2) assms(3) assms(6) assms(4)] obtain rw sw qx
    where h: "Math_max (Fin 50) (Math_min (Fin c) (width box)) = Fin rw" "50 \<le> rw" "rw \<le> c"
      "js_sub (Fin c) (Fin rw) = Fin sw" "0 \<le> sw" "sw \<le> c"
      "Math_max (Fin 0)
         (Math_min (Math_max (Fin 0)
            (js_sub (Fin c) (Math_max (Fin 50) (Math_min (Fin c) (width box))))) (x box)) = Fin qx"
      "0 \<le> qx" "qx \<le> sw"
    by blast
  from axis_contained [OF assms(2) assms(3) assms(7) assms(5)] obtain rh sh qy
    where v: "Math_max (Fin 50) (Math_min (Fin c) (height box)) = Fin rh" "50 \<le> rh" "rh \<le> c"
      "js_sub (Fin c) (Fin rh) = Fin sh" "0 \<le> sh" "sh \<le> c"
      "Math_max (Fin 0)
         (Math_min (Math_max (Fin 0)
            (js_sub (Fin c) (Math_max (Fin 50) (Math_min (Fin c) (height box))))) (y box)) = Fin qy"
      "0 \<le> qy" "qy \<le> sh"
    by blast
  have r: "constrainCropBox doc box = \<lparr>x = Fin qx, y = Fin qy, width = Fin rw, height = Fin rh\<rparr>"
    using h(1,7) v(1,7) by (simp add: constrainCropBox_def Let_def assms(1) minSize_def)
  have bounds: "js_ge (Fin qx) (Fin 0) \<and> js_ge (Fin qy) (Fin 0)
       \<and> js_ge (Fin rw) minSize \<and> js_ge (Fin rh) minSize
       \<and> js_le (Fin rw) (Fin c) \<and> js_le (Fin rh) (Fin c)
       \<and> js_le (Fin qx) (js_sub (Fin c) (Fin rw))
       \<and> js_le (Fin qy) (js_sub (Fin c) (Fin rh))"
    using h(2,3,8,9) v(2,3,8,9) unfolding h(4) v(4) by (simp add: js_ge_def minSize_def)
  have sum: "js_le (js_add (Fin q) (Fin w)) (Fin c)" if "0 \<le> q" "0 \<le> w" "q + w \<le> c" for q w
  proof -
    from that have "0 \<le> q + w" by simp
    from round_double_le [OF this that(3) assms(2)] show ?thesis by auto
  qed
  have ex: "qx + rw \<le> c \<and> js_le (js_add (Fin qx) (Fin rw)) (Fin c)" if "sw = c - rw"
    using that h(2,8,9) sum [of qx rw] by simp
  have ey: "qy + rh \<le> c \<and> js_le (js_add (Fin qy) (Fin rh)) (Fin c)" if "sh = c - rh"
    using that v(2,8,9) sum [of qy rh] by simp
  have sw: "round_double (c - rw) = Fin sw" and sh: "round_double (c - rh) = Fin sh"
    using h(4) v(4) by simp_all
  show ?thesis
    unfolding r assms(1) using bounds ex ey by (simp add: sw sh)
qed

theorem constrainCropBox_containment_witness:
  "getContainerSize (desktop_page 400) = Fin 400
   \<and> round_double 400 = Fin 400
   \<and> (50::real) \<le> 400
   \<and> constrainCropBox (desktop_page 400)
         \<lparr>x = Fin 390, y = Fin (- 20), width = PosInf, height = Fin 10\<rparr>
       = \<lparr>x = Fin 0, y = Fin 0, width = Fin 400, height = Fin 50\<rparr>
   \<and> js_sub (Fin 400) (Fin 400) = Fin (400 - 400)
   \<and> js_le (js_add (x (constrainCropBox (desktop_page 400)
                 \<lparr>x = Fin 390, y = Fin (- 20), width = PosInf, height = Fin 10\<rparr>))
        (width (constrainCropBox (desktop_page 400)
                 \<lparr>x = Fin 390, y = Fin (- 20), width = PosInf, height = Fin 10\<rparr>)))
        (Fin 400)"
proof -
  let ?doc = "desktop_page 400"
  let ?box = "\<lparr>x = Fin 390, y = Fin (- 20), width = PosInf, height = Fin 10\<rparr>"
  have c: "getContainerSize ?doc = Fin 400"
    by (simp add: getContainerSize_def Math_min_def)
  have d: "round_double 400 = Fin 400" by simp
  have b: "(50::real) \<le> 400" by simp
  have n: "x ?box \<noteq> NaN" "y ?box \<noteq> NaN" "width ?box \<noteq> NaN" "height ?box \<noteq> NaN"
    by simp_all
  have e: "constrainCropBox ?doc ?box = \<lparr>x = Fin 0, y = Fin 0, width = Fin 400, height = Fin 50\<rparr>"
    by (simp add: constrainCropBox_def Let_def c minSize_def Math_max_def Math_min_def)
  have s: "js_sub (Fin 400) (Fin 400) = Fin (400 - 400)" by simp
  from constrainCropBox_containment [OF c d b n]
  have "\<forall>qx rw. x (constrainCropBox ?doc ?box) = Fin qx
              \<and> width (constrainCropBox ?doc ?box) = Fin rw
              \<and> js_sub (getContainerSize ?doc) (width (constrainCropBox ?doc ?box)) = Fin (400 - rw)
            \<longrightarrow> qx + rw \<le> 400
              \<and> js_le (js_add (x (constrainCropBox ?doc ?box)) (width (constrainCropBox ?doc ?box)))
                   (getContainerSize ?doc)"
    by blast
  then have "x (constrainCropBox ?doc ?box) = Fin 0
              \<and> width (constrainCropBox ?doc ?box) = Fin 400
              \<and> js_sub (getContainerSize ?doc) (width (constrainCropBox ?doc ?box)) = Fin (400 - 400)
            \<longrightarrow> js_le (js_add (x (constrainCropBox ?doc ?box)) (width (constrainCropBox ?doc ?box)))
                   (getContainerSize ?doc)"
    by blast
  moreover have "x (constrainCropBox ?doc ?box) = Fin 0
              \<and> width (constrainCropBox ?doc ?box) = Fin 400
              \<and> js_sub (getContainerSize ?doc) (width (constrainCropBox ?doc ?box)) = Fin (400 - 400)"
    unfolding e c by simp
  ultimately have "js_le (js_add (x (constrainCropBox ?doc ?box)) (width (constrainCropBox ?doc ?box)))
                   (getContainerSize ?doc)"
    by blast
  then have "js_le (js_add (x (constrainCropBox ?doc ?box)) (width (constrainCropBox ?doc ?box)))
                   (Fin 400)"
    unfolding c .
  with c d b e s show ?thesis by blast
qed

text \<open>
  The doubles of the third example below: the ones written \<open>412.7\<close> and \<open>100.1\<close>,
  their rounded difference, which is \<open>312.6\<close>, and the rounded sum of that and
  \<open>100.1\<close>, which is \<open>412.70000000000005\<close>. Both roundings are ties.
\<close>

lemma double_412_7: "round_double (4127 / 10) = Fin (7260295180530483 / 17592186044416)"
  by (rule round_double_evalI [where L = 8 and e = "- 44" and m = 7260295180530483])
     (simp_all add: round_half_even_def power_int_minus)

lemma double_100_1: "round_double (1001 / 10) = Fin (3521955646092083 / 35184372088832)"
  by (rule round_double_evalI [where L = 6 and e = "- 46" and m = 7043911292184166])
     (simp_all add: round_half_even_def power_int_minus)

lemma double_412_7_minus_100_1: "round_double (10998634714968883 / 35184372088832) = Fin (2749658678742221 / 8796093022208)"
  by (rule round_double_evalI [where L = 8 and e = "- 44" and m = 5499317357484442])
     (simp_all add: round_half_even_def power_int_minus)

lemma double_312_6_plus_100_1: "round_double (14520590361060967 / 35184372088832) = Fin (1815073795132621 / 4398046511104)"
  by (rule round_double_evalI [where L = 8 and e = "- 44" and m = 7260295180530484])
     (simp_all add: round_half_even_def power_int_minus)

text \<open>
  The claim as stated fails in three ways. A container smaller than the minimum size:
  one that is not laid out measures 0 by 0, the box returned is 50 wide at \<open>x = 0\<close>,
  and \<open>x + width = 50\<close> exceeds the container side 0. A \<open>NaN\<close> field: a \<open>NaN\<close> in
  \<open>x\<close> comes back, and \<open>x \<ge> 0\<close> is false of it. And rounding: in a container of
  side \<open>412.7\<close>, the box of width \<open>100.1\<close> pushed to the right edge gets
  \<open>x = 412.7 - 100.1 = 312.6\<close>, and \<open>x + width\<close> is \<open>412.70000000000005\<close>.
\<close>

theorem constrainCropBox_containment_counterexample:
  "\<not> js_le
        (js_add
           (x (constrainCropBox (desktop_page 0)
                 \<lparr>x = Fin 0, y = Fin 0, width = Fin 100, height = Fin 100\<rparr>))
           (width (constrainCropBox (desktop_page 0)
                 \<lparr>x = Fin 0, y = Fin 0, width = Fin 100, height = Fin 100\<rparr>)))
        (getContainerSize (desktop_page 0))
   \<and> \<not> js_ge
        (x (constrainCropBox (desktop_page 400)
              \<lparr>x = NaN, y = Fin 0, width = Fin 100, height = Fin 100\<rparr>))
        (Fin 0)
   \<and> \<not> js_le
        (js_add
           (x (constrainCropBox
                 \<lparr>innerWidth = Fin 1280,
                  preview_container_desktop =
                    Some \<lparr>rect_left = Fin 8, rect_top = Fin 8,
                          rect_width = round_double (4127 / 10),
                          rect_height = round_double (4127 / 10)\<rparr>,
                  preview_container_mobile = None\<rparr>
                 \<lparr>x = Fin 1000, y = Fin 0, width = round_double (1001 / 10),
                  height = Fin 60\<rparr>))
           (width (constrainCropBox
                 \<lparr>innerWidth = Fin 1280,
                  preview_container_desktop =
                    Some \<lparr>rect_left = Fin 8, rect_top = Fin 8,
                          rect_width = round_double (4127 / 10),
                          rect_height = round_double (4127 / 10)\<rparr>,
                  preview_container_mobile = None\<rparr>
                 \<lparr>x = Fin 1000, y = Fin 0, width = round_double (1001 / 10),
                  height = Fin 60\<rparr>)))
        (getContainerSize
           \<lparr>innerWidth = Fin 1280,
            preview_container_desktop =
              Some \<lparr>rect_left = Fin 8, rect_top = Fin 8,
                    rect_width = round_double (4127 / 10),
                    rect_height = round_double (4127 / 10)\<rparr>,
            preview_container_mobile = None\<rparr>)"
proof -
  let ?doc = "\<lparr>innerWidth = Fin 1280,
                  preview_container_desktop =
                    Some \<lparr>rect_left = Fin 8, rect_top = Fin 8,
                          rect_width = round_double (4127 / 10),
                          rect_height = round_double (4127 / 10)\<rparr>,
                  preview_container_mobile = None\<rparr>"
  let ?box = "\<lparr>x = Fin 1000, y = Fin 0, width = round_double (1001 / 10),
                  height = Fin 60\<rparr>"
  have small: "\<not> js_le
        (js_add
           (x (constrainCropBox (desktop_page 0)
                 \<lparr>x = Fin 0, y = Fin 0, width = Fin 100, height = Fin 100\<rparr>))
           (width (constrainCropBox (desktop_page 0)
                 \<lparr>x = Fin 0, y = Fin 0, width = Fin 100, height = Fin 100\<rparr>)))
        (getContainerSize (desktop_page 0))"
    by (simp add: constrainCropBox_def Let_def getContainerSize_def minSize_def
        Math_max_def Math_min_def)
  have nan: "\<not> js_ge
        (x (constrainCropBox (desktop_page 400)
              \<lparr>x = NaN, y = Fin 0, width = Fin 100, height = Fin 100\<rparr>))
        (Fin 0)"
    by (simp add: constrainCropBox_def Let_def js_ge_def)
  have c: "getContainerSize ?doc = Fin (7260295180530483 / 17592186044416)"
    by (simp add: getContainerSize_def Math_min_def double_412_7)
  have e: "constrainCropBox ?doc ?box =
      \<lparr>x = Fin (2749658678742221 / 8796093022208), y = Fin 0, width = Fin (3521955646092083 / 35184372088832), height = Fin 60\<rparr>"
    by (simp add: constrainCropBox_def Let_def c double_100_1 minSize_def
        Math_max_def Math_min_def double_412_7_minus_100_1)
  have "\<not> js_le (js_add (x (constrainCropBox ?doc ?box)) (width (constrainCropBox ?doc ?box)))
           (getContainerSize ?doc)"
    unfolding e c by (simp add: double_312_6_plus_100_1)
  with small nan show ?thesis by blast
qed

section \<open>What \<open>constrainCropBox\<close> does with \<open>NaN\<close>\<close>

text \<open>
  Claim C5, as the code has it. Nothing in \<open>constrainCropBox\<close> tests for \<open>NaN\<close>, and
  \<open>Math.max\<close> and \<open>Math.min\<close> return \<open>NaN\<close> when given one. For a finite container
  size and an input box without a \<open>NaN\<close> field (negative and infinite fields
  included) the returned box has no \<open>NaN\<close> field and its width and height are at least
  \<open>minSize\<close>, hence not negative: such values are clamped, not rejected. A \<open>NaN\<close>
  field is not clamped, on any page: a \<open>NaN\<close> width comes back as the width and,
  through \<open>maxX\<close>, as \<open>x\<close>; a \<open>NaN\<close> height as the height and as \<open>y\<close>; a \<open>NaN\<close>
  \<open>x\<close> as \<open>x\<close> and a \<open>NaN\<close> \<open>y\<close> as \<open>y\<close>.
\<close>

theorem constrainCropBox_no_NaN:
  "(getContainerSize doc = Fin c
      \<and> x box \<noteq> NaN \<and> y box \<noteq> NaN \<and> width box \<noteq> NaN \<and> height box \<noteq> NaN \<longrightarrow>
      x (constrainCropBox doc box) \<noteq> NaN
       \<and> y (constrainCropBox doc box) \<noteq> NaN
       \<and> width (constrainCropBox doc box) \<noteq> NaN
       \<and> height (constrainCropBox doc box) \<noteq> NaN
       \<and> js_ge (width (constrainCropBox doc box)) minSize
       \<and> js_ge (height (constrainCropBox doc box)) minSize
       \<and> js_ge (width (constrainCropBox doc box)) (Fin 0)
       \<and> js_ge (height (constrainCropBox doc box)) (Fin 0))
   \<and> (width box = NaN \<longrightarrow>
        width (constrainCropBox doc box) = NaN \<and> x (constrainCropBox doc box) = NaN)
   \<and> (height box = NaN \<longrightarrow>
        height (constrainCropBox doc box) = NaN \<and> y (constrainCropBox doc box) = NaN)
   \<and> (x box = NaN \<longrightarrow> x (constrainCropBox doc box) = NaN)
   \<and> (y box = NaN \<longrightarrow> y (constrainCropBox doc box) = NaN)"
proof -
  have clean: "x (constrainCropBox doc box) \<noteq> NaN
       \<and> y (constrainCropBox doc box) \<noteq> NaN
       \<and> width (constrainCropBox doc box) \<noteq> NaN
       \<and> height (constrainCropBox doc box) \<noteq> NaN
       \<and> js_ge (width (constrainCropBox doc box)) minSize
       \<and> js_ge (height (constrainCropBox doc box)) minSize
       \<and> js_ge (width (constrainCropBox doc box)) (Fin 0)
       \<and> js_ge (height (constrainCropBox doc box)) (Fin 0)"
    if c: "getContainerSize doc = Fin c"
      and n: "x box \<noteq> NaN" "y box \<noteq> NaN" "width box \<noteq> NaN" "height box \<noteq> NaN"
  proof -
    from axis_no_NaN [OF n(3) n(1), of c] obtain rw
      where h: "Math_max (Fin 50) (Math_min (Fin c) (width box)) = Fin rw" "50 \<le> rw"
        "Math_max (Fin 0)
           (Math_min (Math_max (Fin 0)
              (js_sub (Fin c) (Math_max (Fin 50) (Math_min (Fin c) (width box))))) (x box))
         \<noteq> NaN"
      by blast
    from axis_no_NaN [OF n(4) n(2), of c] obtain rh
      where v: "Math_max (Fin 50) (Math_min (Fin c) (height box)) = Fin rh" "50 \<le> rh"
        "Math_max (Fin 0)
           (Math_min (Math_max (Fin 0)
              (js_sub (Fin c) (Math_max (Fin 50) (Math_min (Fin c) (height box))))) (y box))
         \<noteq> NaN"
      by blast
    have w: "width (constrainCropBox doc box) = Fin rw"
      and g: "height (constrainCropBox doc box) = Fin rh"
      using h(1) v(1) by (simp_all add: constrainCropBox_def Let_def c minSize_def)
    have px: "x (constrainCropBox doc box) \<noteq> NaN"
      and py: "y (constrainCropBox doc box) \<noteq> NaN"
      using h(3) v(3) by (simp_all add: constrainCropBox_def Let_def c minSize_def)
    show ?thesis
      using h(2) v(2) px py by (simp add: w g js_ge_def minSize_def)
  qed
  have wide: "width (constrainCropBox doc box) = NaN \<and> x (constrainCropBox doc box) = NaN"
    if "width box = NaN"
    using that by (simp add: constrainCropBox_def Let_def)
  have high: "height (constrainCropBox doc box) = NaN \<and> y (constrainCropBox doc box) = NaN"
    if "height box = NaN"
    using that by (simp add: constrainCropBox_def Let_def)
  have px: "x (constrainCropBox doc box) = NaN" if "x box = NaN"
    using that by (simp add: constrainCropBox_def Let_def)
  have py: "y (constrainCropBox doc box) = NaN" if "y box = NaN"
    using that by (simp add: constrainCropBox_def Let_def)
  from clean wide high px py show ?thesis by blast
qed

theorem constrainCropBox_no_NaN_witness:
  "getContainerSize bare_page = Fin 400
   \<and> constrainCropBox bare_page
       \<lparr>x = NegInf, y = Fin 395, width = Fin (- 30), height = Fin 1000\<rparr>
     = \<lparr>x = Fin 0, y = Fin 0, width = Fin 50, height = Fin 400\<rparr>
   \<and> width (constrainCropBox bare_page
       \<lparr>x = NegInf, y = Fin 395, width = Fin (- 30), height = Fin 1000\<rparr>) \<noteq> NaN
   \<and> constrainCropBox (desktop_page 400)
       \<lparr>x = NaN, y = NaN, width = NaN, height = NaN\<rparr>
     = \<lparr>x = NaN, y = NaN, width = NaN, height = NaN\<rparr>"
proof -
  let ?box = "\<lparr>x = NegInf, y = Fin 395, width = Fin (- 30), height = Fin 1000\<rparr>"
  let ?nan = "\<lparr>x = NaN, y = NaN, width = NaN, height = NaN\<rparr>"
  have c: "getContainerSize bare_page = Fin 400"
    by (simp add: getContainerSize_def)
  have e: "constrainCropBox bare_page ?box = \<lparr>x = Fin 0, y = Fin 0, width = Fin 50, height = Fin 400\<rparr>"
    by (simp add: constrainCropBox_def Let_def c minSize_def Math_max_def Math_min_def)
  have n: "x ?box \<noteq> NaN \<and> y ?box \<noteq> NaN \<and> width ?box \<noteq> NaN \<and> height ?box \<noteq> NaN"
    by simp
  from constrainCropBox_no_NaN [of bare_page 400 ?box] c n
  have w: "width (constrainCropBox bare_page ?box) \<noteq> NaN"
    by blast
  have m: "width ?nan = NaN" "height ?nan = NaN" "x ?nan = NaN" "y ?nan = NaN"
    by simp_all
  from constrainCropBox_no_NaN [of "desktop_page 400" 400 ?nan] m
  have "width (constrainCropBox (desktop_page 400) ?nan) = NaN
      \<and> x (constrainCropBox (desktop_page 400) ?nan) = NaN
      \<and> height (constrainCropBox (desktop_page 400) ?nan) = NaN
      \<and> y (constrainCropBox (desktop_page 400) ?nan) = NaN"
    by blast
  then have a: "constrainCropBox (desktop_page 400) ?nan = ?nan"
    by (cases "constrainCropBox (desktop_page 400) ?nan") simp
  from c e w a show ?thesis by blast
qed

text \<open>
  A \<open>NaN\<close> width is not clamped: it comes back as the width, and through \<open>maxX\<close> as
  \<open>x\<close> too.
\<close>

theorem constrainCropBox_NaN_counterexample:
  "width (constrainCropBox
            \<lparr>innerWidth = Fin 1280, preview_container_desktop = None,
             preview_container_mobile = None\<rparr>
            \<lparr>x = Fin 10, y = Fin 10, width = NaN, height = Fin 100\<rparr>) = NaN
   \<and> x (constrainCropBox
            \<lparr>innerWidth = Fin 1280, preview_container_desktop = None,
             preview_container_mobile = None\<rparr>
            \<lparr>x = Fin 10, y = Fin 10, width = NaN, height = Fin 100\<rparr>) = NaN"
  by (simp add: constrainCropBox_def Let_def getContainerSize_def minSize_def
      Math_max_def Math_min_def)

section \<open>Idempotence\<close>

text \<open>
  Claim C8: on the same page, constraining a constrained box changes nothing. This
  holds for every box and every container size, the special values included; equality
  is equality of the four fields as values, under which \<open>NaN\<close> is equal to itself.
\<close>

theorem constrainCropBox_idempotent:
  "constrainCropBox doc (constrainCropBox doc box) = constrainCropBox doc box"
  by (simp add: constrainCropBox_def Let_def clamp_idem)

section \<open>The store action\<close>

text \<open>
  Claim C10: \<open>updateCropBox\<close> merges its argument over the current box. An absent
  field keeps its value and a present one is stored as it is, whatever it is: a full
  box comes back unchanged, so the store neither clamps nor checks. The image is not
  touched.
\<close>

theorem updateCropBox_merges:
  "cropBox (updateCropBox box s) =
     \<lparr>x = (case x_opt box of None \<Rightarrow> x (cropBox s) | Some v \<Rightarrow> v),
      y = (case y_opt box of None \<Rightarrow> y (cropBox s) | Some v \<Rightarrow> v),
      width = (case width_opt box of None \<Rightarrow> width (cropBox s) | Some v \<Rightarrow> v),
      height = (case height_opt box of None \<Rightarrow> height (cropBox s) | Some v \<Rightarrow> v)\<rparr>
   \<and> image_data (updateCropBox box s) = image_data s
   \<and> cropBox (updateCropBox (all_fields b) s) = b"
  by (simp add: updateCropBox_def spread_def all_fields_def)

section \<open>The displayed image fits the container\<close>

text \<open>
  Claim C3: for a positive container size and positive image dimensions, the
  displayed width and height are at most the container size, one of them is equal to
  it, and both are for a square image. The container size is a number of the code,
  that is a double; the quotient and the products are rounded.
\<close>

theorem displayMapping_fits:
  assumes "0 < c" and "0 < iw" and "0 < ih" and "round_double c = Fin c"
  shows "js_le (imageDisplayWidth (displayMapping (Fin c) (Fin iw) (Fin ih))) (Fin c)
       \<and> js_le (imageDisplayHeight (displayMapping (Fin c) (Fin iw) (Fin ih))) (Fin c)
       \<and> (imageDisplayWidth (displayMapping (Fin c) (Fin iw) (Fin ih)) = Fin c
          \<or> imageDisplayHeight (displayMapping (Fin c) (Fin iw) (Fin ih)) = Fin c)
       \<and> (iw = ih \<longrightarrow>
            imageDisplayWidth (displayMapping (Fin c) (Fin iw) (Fin ih)) = Fin c
            \<and> imageDisplayHeight (displayMapping (Fin c) (Fin iw) (Fin ih)) = Fin c)"
proof -
  let ?m = "displayMapping (Fin c) (Fin iw) (Fin ih)"
  have sq: "round_double (iw / ih) = Fin 1" if "iw = ih"
    using that assms(3) by simp
  have "0 \<le> iw / ih" using assms(2,3) by simp
  from round_double_ge [OF order_refl this round_double_0]
  consider "round_double (iw / ih) = PosInf"
    | r where "round_double (iw / ih) = Fin r" "1 < r"
    | r where "round_double (iw / ih) = Fin r" "0 \<le> r" "r \<le> 1"
    by fastforce
  then show ?thesis
  proof cases
    case 1
    have dw: "imageDisplayWidth ?m = Fin c" and dh: "imageDisplayHeight ?m = Fin 0"
      using assms(3) by (simp_all add: displayMapping_def Let_def js_gt_def 1)
    show ?thesis unfolding dw dh using assms(1) sq 1 by auto
  next
    case 2
    have "0 \<le> c / r" "c / r \<le> c"
      using assms(1) 2(2) by (simp_all add: field_simps)
    from round_double_le [OF this assms(4)] obtain s
      where s: "round_double (c / r) = Fin s" "s \<le> c"
      by blast
    have dw: "imageDisplayWidth ?m = Fin c" and dh: "imageDisplayHeight ?m = Fin s"
      using 2(2) s(1) assms(3) by (simp_all add: displayMapping_def Let_def js_gt_def 2(1))
    show ?thesis unfolding dw dh using s(2) sq 2 by auto
  next
    case 3
    have "0 \<le> c * r" "c * r \<le> c"
      using assms(1) 3(2,3) by (simp_all add: mult_left_le)
    from round_double_le [OF this assms(4)] obtain s
      where s: "round_double (c * r) = Fin s" "s \<le> c"
      by blast
    have dw: "imageDisplayWidth ?m = Fin s" and dh: "imageDisplayHeight ?m = Fin c"
      using 3(3) s(1) assms(3) by (simp_all add: displayMapping_def Let_def js_gt_def 3(1))
    have both: "s = c" if "iw = ih"
      using sq [OF that] 3(1) s(1) assms(4) by simp
    show ?thesis unfolding dw dh using s(2) both by auto
  qed
qed

theorem displayMapping_fits_witness:
  "(0::real) < 400 \<and> (0::real) < 600 \<and> (600::real) = 600
   \<and> round_double 400 = Fin 400
   \<and> imageDisplayWidth (displayMapping (Fin 400) (Fin 600) (Fin 600)) = Fin 400
   \<and> imageDisplayHeight (displayMapping (Fin 400) (Fin 600) (Fin 600)) = Fin 400"
proof -
  have c: "(0::real) < 400" and i: "(0::real) < 600" by simp_all
  have d: "round_double 400 = Fin 400" by simp
  from displayMapping_fits [OF c i i d]
  have "imageDisplayWidth (displayMapping (Fin 400) (Fin 600) (Fin 600)) = Fin 400
      \<and> imageDisplayHeight (displayMapping (Fin 400) (Fin 600) (Fin 600)) = Fin 400"
    by simp
  with c i d show ?thesis by simp
qed

section \<open>Facts about the store, the frame queue and the reset box\<close>

lemma updateCropBox_all_fields: "updateCropBox (all_fields b) s = s\<lparr>cropBox := b\<rparr>"
  by (simp add: updateCropBox_def spread_def all_fields_def)

lemma frameCallback_cropBox:
  "cropBox (store (frameCallback doc newCropBox st)) = constrainCropBox doc newCropBox"
  by (simp add: frameCallback_def updateCropBox_all_fields)

text \<open>
  Whatever callbacks were already pending, the box in the store after the frame is the
  one committed by the callback queued last.
\<close>

lemma runAnimationFrame_last:
  "cropBox (store (runAnimationFrame doc (requestAnimationFrame newCropBox st)))
     = constrainCropBox doc newCropBox"
  by (simp add: runAnimationFrame_def requestAnimationFrame_def frameCallback_cropBox)

lemma store_addEventListener [simp]: "store (addEventListener ty h st) = store st"
  by (simp add: addEventListener_def)

lemma isResizing_addEventListener [simp]:
  "isResizing (addEventListener ty h st) = isResizing st"
  by (simp add: addEventListener_def)

lemma startResize_store:
  "store (state_of (startResize doc event handle st)) =
     (if js_le (width (cropBox (store st))) (Fin 0) \<or> js_le (height (cropBox (store st))) (Fin 0)
      then (store st)\<lparr>cropBox := resetBox doc\<rparr> else store st)"
  by (cases "client event")
     (auto simp: startResize_def Let_def updateCropBox_all_fields)

text \<open>
  The products by \<open>0.3\<close> that the examples need, and the container side written
  \<open>433.3333333333333\<close> with the numbers computed from it.
\<close>

lemma double_400_times_0_3: "round_double (135107988821114875 / 1125899906842624) = Fin 120"
  by (rule round_double_evalI [where L = 6 and e = "- 46" and m = 8444249301319680])
     (simp_all add: round_half_even_def power_int_minus)

lemma double_100_times_0_3: "round_double (135107988821114875 / 4503599627370496) = Fin 30"
  by (rule round_double_evalI [where L = 4 and e = "- 48" and m = 8444249301319680])
     (simp_all add: round_half_even_def power_int_minus)

lemma double_433: "round_double (4333333333333333 / 10000000000000) = Fin (7623280619246933 / 17592186044416)"
  by (rule round_double_evalI [where L = 8 and e = "- 44" and m = 7623280619246933])
     (simp_all add: round_half_even_def power_int_minus)

lemma double_433_times_0_3: "round_double (41198644507417452222546879377135 / 316912650057057350374175801344) = Fin 130"
  by (rule round_double_evalI [where L = 7 and e = "- 45" and m = 4573968371548160])
     (simp_all add: round_half_even_def power_int_minus)

lemma double_433_minus_130: "round_double (5336296433472853 / 17592186044416) = Fin (5336296433472853 / 17592186044416)"
  by (rule round_double_evalI [where L = 8 and e = "- 44" and m = 5336296433472853])
     (simp_all add: round_half_even_def power_int_minus)

lemma double_303_halved: "round_double (5336296433472853 / 35184372088832) = Fin (5336296433472853 / 35184372088832)"
  by (rule round_double_evalI [where L = 7 and e = "- 45" and m = 5336296433472853])
     (simp_all add: round_half_even_def power_int_minus)

lemma resetBox_400:
  assumes "getContainerSize doc = Fin 400"
  shows "resetBox doc = \<lparr>x = Fin 140, y = Fin 140, width = Fin 120, height = Fin 120\<rparr>"
  by (simp add: resetBox_def Let_def assms minSize_def Math_max_def three_tenths
      double_400_times_0_3)

text \<open>The two \<open>if\<close>s on the minimum size in \<open>handleResize\<close> compute \<open>Math.max\<close>.\<close>

lemma at_least_minSize:
  "(if js_lt v minSize then minSize else v) = Math_max minSize v"
  by (cases v) (auto simp: Math_max_def minSize_def)

lemma floorMinSize_max:
  "floorMinSize b = b\<lparr>width := Math_max minSize (width b), height := Math_max minSize (height b)\<rparr>"
  by (simp add: floorMinSize_def Let_def at_least_minSize [symmetric])

lemma keep_size:
  assumes "js_le minSize v" and "js_le v c"
  shows "Math_max minSize (Math_min c v) = v"
  using assms by (cases v; cases c) (auto simp: Math_max_def Math_min_def minSize_def)

lemma margin_width:
  assumes "js_le (Fin 54) v"
  shows "Math_max minSize (js_sub v (Fin 4)) = js_sub v (Fin 4)"
proof (cases v)
  case (Fin a)
  then have a: "50 \<le> a - 4" using assms by simp
  have "(0::real) \<le> 50" and "round_double 50 = Fin 50" by simp_all
  from round_double_ge [OF this(1) a this(2)] show ?thesis
    using Fin by (auto simp: Math_max_def minSize_def)
qed (use assms in \<open>auto simp: Math_max_def minSize_def\<close>)

lemma margin_offset:
  assumes "js_le (Fin (- 2)) v"
  shows "Math_max (Fin 0) (js_add v (Fin 2)) = js_add v (Fin 2)"
proof (cases v)
  case (Fin a)
  then have "0 \<le> a + 2" using assms by simp
  from round_double_ge [OF order_refl this round_double_0] show ?thesis
    using Fin by (auto simp: Math_max_def)
qed (use assms in \<open>auto simp: Math_max_def\<close>)

lemma displayMapping_800_400:
  "displayMapping (Fin 400) (Fin 800) (Fin 400) =
     \<lparr>imageDisplayWidth = Fin 400, imageDisplayHeight = Fin 200,
      offsetX = Fin 0, offsetY = Fin 100\<rparr>"
  by (simp add: displayMapping_def Let_def js_gt_def)

section \<open>The resize candidate\<close>

text \<open>
  Claim C2: on a pointer move during a resize, with \<open>deltaX\<close> and \<open>deltaY\<close> the
  pointer position minus the position at the start of the gesture, the handler queues
  for \<open>constrainCropBox\<close> the snapshot \<open>initialCropBox\<close> changed by the handle:
  \<open>nw\<close> adds the delta to \<open>x\<close> and \<open>y\<close> and subtracts it from both sizes, \<open>ne\<close>
  adds \<open>deltaY\<close> to \<open>y\<close>, adds \<open>deltaX\<close> to the width and subtracts \<open>deltaY\<close> from the
  height, \<open>sw\<close> adds \<open>deltaX\<close> to \<open>x\<close>, subtracts it from the width and adds
  \<open>deltaY\<close> to the height, \<open>se\<close> adds the delta to both sizes. Width and height
  are then each raised to \<open>minSize\<close> where they are below it, and \<open>x\<close> and \<open>y\<close> are
  left as the handle set them. The box in the store after the next frame is
  \<open>constrainCropBox\<close> of this candidate.
\<close>

theorem handleResize_candidate:
  assumes "isResizing st" and "client event = Some (clientX, clientY)"
    and "deltaX = (case preview_container_desktop doc of
                     Some rect \<Rightarrow> js_sub (js_sub clientX (rect_left rect)) (x (dragStartPos st))
                   | None \<Rightarrow> js_sub clientX (x (dragStartPos st)))"
    and "deltaY = (case preview_container_desktop doc of
                     Some rect \<Rightarrow> js_sub (js_sub clientY (rect_top rect)) (y (dragStartPos st))
                   | None \<Rightarrow> js_sub clientY (y (dragStartPos st)))"
  shows "handleResize doc event st =
           Returned (requestAnimationFrame
             (resizeCandidate (resizeHandle st) deltaX deltaY (initialCropBox st)) st)
       \<and> cropBox (store (runAnimationFrame doc' (state_of (handleResize doc event st)))) =
           constrainCropBox doc'
             (resizeCandidate (resizeHandle st) deltaX deltaY (initialCropBox st))
       \<and> resizeCandidate ''nw'' deltaX deltaY (initialCropBox st) =
           \<lparr>x = js_add (x (initialCropBox st)) deltaX,
            y = js_add (y (initialCropBox st)) deltaY,
            width = Math_max minSize (js_sub (width (initialCropBox st)) deltaX),
            height = Math_max minSize (js_sub (height (initialCropBox st)) deltaY)\<rparr>
       \<and> resizeCandidate ''ne'' deltaX deltaY (initialCropBox st) =
           \<lparr>x = x (initialCropBox st),
            y = js_add (y (initialCropBox st)) deltaY,
            width = Math_max minSize (js_add (width (initialCropBox st)) deltaX),
            height = Math_max minSize (js_sub (height (initialCropBox st)) deltaY)\<rparr>
       \<and> resizeCandidate ''sw'' deltaX deltaY (initialCropBox st) =
           \<lparr>x = js_add (x (initialCropBox st)) deltaX,
            y = y (initialCropBox st),
            width = Math_max minSize (js_sub (width (initialCropBox st)) deltaX),
            height = Math_max minSize (js_add (height (initialCropBox st)) deltaY)\<rparr>
       \<and> resizeCandidate ''se'' deltaX deltaY (initialCropBox st) =
           \<lparr>x = x (initialCropBox st),
            y = y (initialCropBox st),
            width = Math_max minSize (js_add (width (initialCropBox st)) deltaX),
            height = Math_max minSize (js_add (height (initialCropBox st)) deltaY)\<rparr>"
proof -
  have h: "handleResize doc event st =
           Returned (requestAnimationFrame
             (resizeCandidate (resizeHandle st) deltaX deltaY (initialCropBox st)) st)"
    using assms by (cases "preview_container_desktop doc") (simp_all add: handleResize_def)
  have f: "cropBox (store (runAnimationFrame doc' (state_of (handleResize doc event st)))) =
           constrainCropBox doc'
             (resizeCandidate (resizeHandle st) deltaX deltaY (initialCropBox st))"
    by (simp add: h runAnimationFrame_last)
  have nw: "resizeCandidate ''nw'' deltaX deltaY (initialCropBox st) =
           \<lparr>x = js_add (x (initialCropBox st)) deltaX,
            y = js_add (y (initialCropBox st)) deltaY,
            width = Math_max minSize (js_sub (width (initialCropBox st)) deltaX),
            height = Math_max minSize (js_sub (height (initialCropBox st)) deltaY)\<rparr>"
    by (simp add: resizeCandidate_def applyHandle_def floorMinSize_max)
  have ne: "resizeCandidate ''ne'' deltaX deltaY (initialCropBox st) =
           \<lparr>x = x (initialCropBox st),
            y = js_add (y (initialCropBox st)) deltaY,
            width = Math_max minSize (js_add (width (initialCropBox st)) deltaX),
            height = Math_max minSize (js_sub (height (initialCropBox st)) deltaY)\<rparr>"
    by (simp add: resizeCandidate_def applyHandle_def floorMinSize_max)
  have sw: "resizeCandidate ''sw'' deltaX deltaY (initialCropBox st) =
           \<lparr>x = js_add (x (initialCropBox st)) deltaX,
            y = y (initialCropBox st),
            width = Math_max minSize (js_sub (width (initialCropBox st)) deltaX),
            height = Math_max minSize (js_add (height (initialCropBox st)) deltaY)\<rparr>"
    by (simp add: resizeCandidate_def applyHandle_def floorMinSize_max)
  have se: "resizeCandidate ''se'' deltaX deltaY (initialCropBox st) =
           \<lparr>x = x (initialCropBox st),
            y = y (initialCropBox st),
            width = Math_max minSize (js_add (width (initialCropBox st)) deltaX),
            height = Math_max minSize (js_add (height (initialCropBox st)) deltaY)\<rparr>"
    by (simp add: resizeCandidate_def applyHandle_def floorMinSize_max)
  from h f nw ne sw se show ?thesis by blast
qed

theorem handleResize_candidate_witness:
  "isResizing ((useCropBoxDesktop usePicCutStore)
      \<lparr>isResizing := True, dragStartPos := \<lparr>x = Fin 50, y = Fin 50\<rparr>,
       resizeHandle := ''nw'',
       initialCropBox := \<lparr>x = Fin 50, y = Fin 50, width = Fin 300, height = Fin 300\<rparr>\<rparr>)
   \<and> client (MouseEvent None (Fin 338) (Fin 158)) = Some (Fin 338, Fin 158)
   \<and> handleResize (desktop_page 400) (MouseEvent None (Fin 338) (Fin 158))
        ((useCropBoxDesktop usePicCutStore)
           \<lparr>isResizing := True, dragStartPos := \<lparr>x = Fin 50, y = Fin 50\<rparr>,
            resizeHandle := ''nw'',
            initialCropBox := \<lparr>x = Fin 50, y = Fin 50, width = Fin 300, height = Fin 300\<rparr>\<rparr>)
      = Returned (requestAnimationFrame
          \<lparr>x = Fin 330, y = Fin 150, width = Fin 50, height = Fin 200\<rparr>
          ((useCropBoxDesktop usePicCutStore)
             \<lparr>isResizing := True, dragStartPos := \<lparr>x = Fin 50, y = Fin 50\<rparr>,
              resizeHandle := ''nw'',
              initialCropBox := \<lparr>x = Fin 50, y = Fin 50, width = Fin 300, height = Fin 300\<rparr>\<rparr>))"
proof -
  let ?st = "(useCropBoxDesktop usePicCutStore)
      \<lparr>isResizing := True, dragStartPos := \<lparr>x = Fin 50, y = Fin 50\<rparr>,
       resizeHandle := ''nw'',
       initialCropBox := \<lparr>x = Fin 50, y = Fin 50, width = Fin 300, height = Fin 300\<rparr>\<rparr>"
  let ?ev = "MouseEvent None (Fin 338) (Fin 158)"
  have r: "isResizing ?st" by simp
  have e: "client ?ev = Some (Fin 338, Fin 158)" by simp
  note t = handleResize_candidate [OF r e refl refl, of "desktop_page 400" "desktop_page 400"]
  from t have a: "handleResize (desktop_page 400) ?ev ?st =
      Returned (requestAnimationFrame
        (resizeCandidate ''nw'' (Fin 280) (Fin 100)
           \<lparr>x = Fin 50, y = Fin 50, width = Fin 300, height = Fin 300\<rparr>) ?st)"
    by auto
  from t have b: "resizeCandidate ''nw'' (Fin 280) (Fin 100)
           \<lparr>x = Fin 50, y = Fin 50, width = Fin 300, height = Fin 300\<rparr>
      = \<lparr>x = Fin 330, y = Fin 150, width = Fin 50, height = Fin 200\<rparr>"
    by (auto simp: Math_max_def minSize_def)
  from a b have "handleResize (desktop_page 400) ?ev ?st =
      Returned (requestAnimationFrame
        \<lparr>x = Fin 330, y = Fin 150, width = Fin 50, height = Fin 200\<rparr> ?st)"
    by simp
  with r e show ?thesis by blast
qed

section \<open>Starting a gesture on a degenerate box\<close>

text \<open>
  Claim C7: with the box \<open>{x: 0, y: 0, width: 0, height: 0}\<close> and a container side
  of 400, a drag start (a pointer-down whose target is not a resize handle) stores the
  box \<open>{x: 140, y: 140, width: 120, height: 120}\<close> and returns at once: nothing else
  in the state changes, so \<open>isDragging\<close> is not set.
\<close>

theorem startDrag_self_heal_400:
  assumes "getContainerSize doc = Fin 400"
    and "cropBox (store st) = \<lparr>x = Fin 0, y = Fin 0, width = Fin 0, height = Fin 0\<rparr>"
    and "\<not> is_handle (target event)"
  shows "startDrag doc event st =
           Returned (st\<lparr>store := (store st)
              \<lparr>cropBox := \<lparr>x = Fin 140, y = Fin 140, width = Fin 120, height = Fin 120\<rparr>\<rparr>\<rparr>)
       \<and> isDragging (state_of (startDrag doc event st)) = isDragging st"
proof -
  have r: "resetBox doc = \<lparr>x = Fin 140, y = Fin 140, width = Fin 120, height = Fin 120\<rparr>"
    by (rule resetBox_400 [OF assms(1)])
  have "startDrag doc event st = Returned (st\<lparr>store := (store st)\<lparr>cropBox := resetBox doc\<rparr>\<rparr>)"
    using assms(2,3) by (simp add: startDrag_def updateCropBox_all_fields)
  then show ?thesis by (simp add: r)
qed

theorem startDrag_self_heal_400_witness:
  "getContainerSize bare_page = Fin 400
   \<and> \<not> is_handle (target (MouseEvent (Some [''crop-box'']) (Fin 200) (Fin 200)))
   \<and> startDrag bare_page (MouseEvent (Some [''crop-box'']) (Fin 200) (Fin 200))
         (useCropBoxDesktop (usePicCutStore
            \<lparr>cropBox := \<lparr>x = Fin 0, y = Fin 0, width = Fin 0, height = Fin 0\<rparr>\<rparr>))
       = Returned (useCropBoxDesktop (usePicCutStore
            \<lparr>cropBox := \<lparr>x = Fin 140, y = Fin 140, width = Fin 120, height = Fin 120\<rparr>\<rparr>))"
proof -
  let ?st = "useCropBoxDesktop (usePicCutStore
            \<lparr>cropBox := \<lparr>x = Fin 0, y = Fin 0, width = Fin 0, height = Fin 0\<rparr>\<rparr>)"
  let ?ev = "MouseEvent (Some [''crop-box'']) (Fin 200) (Fin 200)"
  have c: "getContainerSize bare_page = Fin 400"
    by (simp add: getContainerSize_def)
  have b: "cropBox (store ?st) = \<lparr>x = Fin 0, y = Fin 0, width = Fin 0, height = Fin 0\<rparr>"
    by (simp add: useCropBoxDesktop_def)
  have t: "\<not> is_handle (target ?ev)"
    by (simp add: is_handle_def)
  from startDrag_self_heal_400 [OF c b t]
  have "startDrag bare_page ?ev ?st = Returned (useCropBoxDesktop (usePicCutStore
            \<lparr>cropBox := \<lparr>x = Fin 140, y = Fin 140, width = Fin 120, height = Fin 120\<rparr>\<rparr>))"
    by (simp add: useCropBoxDesktop_def)
  with c t show ?thesis by blast
qed

text \<open>
  Claim C4, as the code has it. When the current box has a width or a height that is
  not positive, both \<open>startDrag\<close> and \<open>startResize\<close> store the reset box: a square of
  side \<open>max(50, floor(containerSize * 0.3))\<close> at offset
  \<open>max(0, floor((containerSize - side) / 2))\<close> on both axes, computed in double
  arithmetic. A drag start (whose target is not a resize handle) then returns, leaving
  everything else in the state as it was. The theorem says nothing about the flags
  after \<open>startResize\<close>.
\<close>

theorem gesture_start_self_heal:
  assumes "js_le (width (cropBox (store st))) (Fin 0)
           \<or> js_le (height (cropBox (store st))) (Fin 0)"
    and "side = Math_max minSize
                  (Math_floor (js_mul (getContainerSize doc) (round_double (3 / 10))))"
    and "offset = Math_max (Fin 0)
                    (Math_floor (js_div (js_sub (getContainerSize doc) side) (Fin 2)))"
  shows "(\<not> is_handle (target event) \<longrightarrow>
            startDrag doc event st =
              Returned (st\<lparr>store := (store st)
                 \<lparr>cropBox := \<lparr>x = offset, y = offset, width = side, height = side\<rparr>\<rparr>\<rparr>))
       \<and> cropBox (store (state_of (startResize doc event' handle st))) =
            \<lparr>x = offset, y = offset, width = side, height = side\<rparr>"
proof -
  have b: "resetBox doc = \<lparr>x = offset, y = offset, width = side, height = side\<rparr>"
    by (simp add: resetBox_def Let_def assms(2,3))
  have d: "\<not> is_handle (target event) \<longrightarrow>
            startDrag doc event st =
              Returned (st\<lparr>store := (store st)\<lparr>cropBox := resetBox doc\<rparr>\<rparr>)"
    using assms(1) by (simp add: startDrag_def updateCropBox_all_fields)
  have r: "cropBox (store (state_of (startResize doc event' handle st))) = resetBox doc"
    using assms(1) by (simp add: startResize_store)
  from d r show ?thesis unfolding b by blast
qed

theorem gesture_start_self_heal_witness:
  "(js_le (Fin 0) (Fin 0) \<or> js_le (Fin 0) (Fin 0))
   \<and> \<not> is_handle (target (MouseEvent (Some [''crop-box'']) (Fin 200) (Fin 200)))
   \<and> Math_max minSize (Math_floor (js_mul (getContainerSize
        \<lparr>innerWidth = Fin 1280,
      preview_container_desktop =
        Some \<lparr>rect_left = Fin 8, rect_top = Fin 8,
              rect_width = round_double (4333333333333333 / 10000000000000),
              rect_height = round_double (4333333333333333 / 10000000000000)\<rparr>,
      preview_container_mobile = None\<rparr>)
        (round_double (3 / 10)))) = Fin 130
   \<and> startDrag
        \<lparr>innerWidth = Fin 1280,
      preview_container_desktop =
        Some \<lparr>rect_left = Fin 8, rect_top = Fin 8,
              rect_width = round_double (4333333333333333 / 10000000000000),
              rect_height = round_double (4333333333333333 / 10000000000000)\<rparr>,
      preview_container_mobile = None\<rparr>
        (MouseEvent (Some [''crop-box'']) (Fin 200) (Fin 200))
        (useCropBoxDesktop (usePicCutStore
           \<lparr>cropBox := \<lparr>x = Fin 0, y = Fin 0, width = Fin 0, height = Fin 0\<rparr>\<rparr>))
       = Returned (useCropBoxDesktop (usePicCutStore
            \<lparr>cropBox := \<lparr>x = Fin 151, y = Fin 151, width = Fin 130, height = Fin 130\<rparr>\<rparr>))
   \<and> cropBox (store (state_of
         (startResize
            \<lparr>innerWidth = Fin 1280,
      preview_container_desktop =
        Some \<lparr>rect_left = Fin 8, rect_top = Fin 8,
              rect_width = round_double (4333333333333333 / 10000000000000),
              rect_height = round_double (4333333333333333 / 10000000000000)\<rparr>,
      preview_container_mobile = None\<rparr>
            (MouseEvent (Some [''crop-handle'', ''crop-handle-desktop'']) (Fin 8) (Fin 8)) ''se''
            (useCropBoxDesktop (usePicCutStore
               \<lparr>cropBox := \<lparr>x = Fin 0, y = Fin 0, width = Fin 0, height = Fin 0\<rparr>\<rparr>)))))
       = \<lparr>x = Fin 151, y = Fin 151, width = Fin 130, height = Fin 130\<rparr>"
proof -
  let ?doc = "\<lparr>innerWidth = Fin 1280,
      preview_container_desktop =
        Some \<lparr>rect_left = Fin 8, rect_top = Fin 8,
              rect_width = round_double (4333333333333333 / 10000000000000),
              rect_height = round_double (4333333333333333 / 10000000000000)\<rparr>,
      preview_container_mobile = None\<rparr>"
  let ?st = "useCropBoxDesktop (usePicCutStore
            \<lparr>cropBox := \<lparr>x = Fin 0, y = Fin 0, width = Fin 0, height = Fin 0\<rparr>\<rparr>)"
  let ?ev = "MouseEvent (Some [''crop-box'']) (Fin 200) (Fin 200)"
  let ?ev' = "MouseEvent (Some [''crop-handle'', ''crop-handle-desktop'']) (Fin 8) (Fin 8)"
  let ?side = "Math_max minSize
      (Math_floor (js_mul (getContainerSize ?doc) (round_double (3 / 10))))"
  let ?offset = "Math_max (Fin 0)
      (Math_floor (js_div (js_sub (getContainerSize ?doc) ?side) (Fin 2)))"
  have z: "js_le (Fin 0) (Fin 0) \<or> js_le (Fin 0) (Fin 0)" by simp
  have b: "js_le (width (cropBox (store ?st))) (Fin 0)
           \<or> js_le (height (cropBox (store ?st))) (Fin 0)"
    by (simp add: useCropBoxDesktop_def)
  have t: "\<not> is_handle (target ?ev)"
    by (simp add: is_handle_def)
  have c: "getContainerSize ?doc = Fin (7623280619246933 / 17592186044416)"
    by (simp add: getContainerSize_def Math_min_def double_433)
  have side: "?side = Fin 130"
    unfolding c by (simp add: three_tenths double_433_times_0_3 minSize_def Math_max_def)
  have offset: "Math_max (Fin 0)
      (Math_floor (js_div (js_sub (getContainerSize ?doc) (Fin 130)) (Fin 2))) = Fin 151"
    unfolding c
    by (simp add: double_433_minus_130 double_303_halved Math_max_def)
  note g = gesture_start_self_heal
    [where doc = "?doc" and event = "?ev" and event' = "?ev'" and handle = "''se''",
      OF b refl refl]
  from g t have "startDrag ?doc ?ev ?st =
      Returned (?st\<lparr>store := (store ?st)
         \<lparr>cropBox := \<lparr>x = ?offset, y = ?offset, width = ?side, height = ?side\<rparr>\<rparr>\<rparr>)"
    by blast
  then have d: "startDrag ?doc ?ev ?st =
      Returned (useCropBoxDesktop (usePicCutStore
            \<lparr>cropBox := \<lparr>x = Fin 151, y = Fin 151, width = Fin 130, height = Fin 130\<rparr>\<rparr>))"
    unfolding side offset by (simp add: useCropBoxDesktop_def)
  from g have "cropBox (store (state_of (startResize ?doc ?ev' ''se'' ?st)))
      = \<lparr>x = ?offset, y = ?offset, width = ?side, height = ?side\<rparr>"
    by blast
  then have s: "cropBox (store (state_of (startResize ?doc ?ev' ''se'' ?st)))
      = \<lparr>x = Fin 151, y = Fin 151, width = Fin 130, height = Fin 130\<rparr>"
    unfolding side offset .
  from z t side d s show ?thesis by blast
qed

text \<open>
  The claim as stated fails in two places. \<open>startResize\<close> has no \<open>return\<close> after the
  reset, unlike \<open>startDrag\<close>: on the degenerate box it goes on and sets
  \<open>isResizing\<close>. And the side of the reset square is not 30 percent of the container
  side where that is below \<open>minSize\<close>: for a container of side 100 it is 50, not 30.
\<close>

theorem gesture_start_self_heal_counterexample:
  "isResizing (state_of
      (startResize (desktop_page 400)
         (MouseEvent (Some [''crop-handle'', ''crop-handle-desktop'']) (Fin 8) (Fin 8)) ''se''
         (useCropBoxDesktop (usePicCutStore
            \<lparr>cropBox := \<lparr>x = Fin 0, y = Fin 0, width = Fin 0, height = Fin 0\<rparr>\<rparr>))))
   \<and> width (cropBox (store (state_of
        (startDrag (desktop_page 100) (MouseEvent (Some [''crop-box'']) (Fin 20) (Fin 20))
           (useCropBoxDesktop (usePicCutStore
              \<lparr>cropBox := \<lparr>x = Fin 0, y = Fin 0, width = Fin 0, height = Fin 0\<rparr>\<rparr>))))))
       \<noteq> Fin (100 * (3 / 10))"
  by (simp add: startResize_def startDrag_def Let_def useCropBoxDesktop_def is_handle_def
      updateCropBox_all_fields resetBox_def getContainerSize_def minSize_def
      Math_max_def Math_min_def three_tenths double_100_times_0_3)

section \<open>A pointer move during a drag\<close>

text \<open>
  Claim C9: a pointer move during a drag, on a box whose width and height lie between
  \<open>minSize\<close> and the container size, queues the box with \<open>x\<close> and \<open>y\<close> set to the
  pointer position minus the drag anchor; the box in the store after the next frame
  has that position clamped into the container and the width and height from before
  the move. The container size is the one read when the frame runs. Where the page has
  no preview container the handler queues nothing and the state is unchanged.
\<close>

theorem handleDrag_keeps_size:
  assumes "isDragging st" and "client event = Some (clientX, clientY)"
    and "js_le minSize (width (cropBox (store st)))"
    and "js_le (width (cropBox (store st))) (getContainerSize doc')"
    and "js_le minSize (height (cropBox (store st)))"
    and "js_le (height (cropBox (store st))) (getContainerSize doc')"
  shows "case preview_container_desktop doc of
           None \<Rightarrow> handleDrag doc event st = Returned st
         | Some rect \<Rightarrow>
             handleDrag doc event st =
               Returned (requestAnimationFrame
                 ((cropBox (store st))
                    \<lparr>x := js_sub (js_sub clientX (rect_left rect)) (x (dragStartPos st)),
                     y := js_sub (js_sub clientY (rect_top rect)) (y (dragStartPos st))\<rparr>) st)
             \<and> cropBox (store (runAnimationFrame doc' (state_of (handleDrag doc event st)))) =
                 \<lparr>x = Math_max (Fin 0)
                        (Math_min
                           (Math_max (Fin 0)
                              (js_sub (getContainerSize doc') (width (cropBox (store st)))))
                           (js_sub (js_sub clientX (rect_left rect)) (x (dragStartPos st)))),
                  y = Math_max (Fin 0)
                        (Math_min
                           (Math_max (Fin 0)
                              (js_sub (getContainerSize doc') (height (cropBox (store st)))))
                           (js_sub (js_sub clientY (rect_top rect)) (y (dragStartPos st)))),
                  width = width (cropBox (store st)),
                  height = height (cropBox (store st))\<rparr>"
proof (cases "preview_container_desktop doc")
  case None
  then show ?thesis using assms(1,2) by (simp add: handleDrag_def)
next
  case (Some rect)
  let ?nb = "(cropBox (store st))
      \<lparr>x := js_sub (js_sub clientX (rect_left rect)) (x (dragStartPos st)),
       y := js_sub (js_sub clientY (rect_top rect)) (y (dragStartPos st))\<rparr>"
  have h: "handleDrag doc event st = Returned (requestAnimationFrame ?nb st)"
    using assms(1,2) Some by (simp add: handleDrag_def)
  have w: "Math_max minSize (Math_min (getContainerSize doc') (width (cropBox (store st))))
      = width (cropBox (store st))"
    by (rule keep_size [OF assms(3) assms(4)])
  have v: "Math_max minSize (Math_min (getContainerSize doc') (height (cropBox (store st))))
      = height (cropBox (store st))"
    by (rule keep_size [OF assms(5) assms(6)])
  have c: "constrainCropBox doc' ?nb =
      \<lparr>x = Math_max (Fin 0)
                        (Math_min
                           (Math_max (Fin 0)
                              (js_sub (getContainerSize doc') (width (cropBox (store st)))))
                           (js_sub (js_sub clientX (rect_left rect)) (x (dragStartPos st)))),
                  y = Math_max (Fin 0)
                        (Math_min
                           (Math_max (Fin 0)
                              (js_sub (getContainerSize doc') (height (cropBox (store st)))))
                           (js_sub (js_sub clientY (rect_top rect)) (y (dragStartPos st)))),
                  width = width (cropBox (store st)),
                  height = height (cropBox (store st))\<rparr>"
    by (simp add: constrainCropBox_def Let_def w v)
  show ?thesis
    by (simp add: Some h runAnimationFrame_last c)
qed

theorem handleDrag_keeps_size_witness:
  "isDragging ((useCropBoxDesktop usePicCutStore)
      \<lparr>isDragging := True, dragStartPos := \<lparr>x = Fin 30, y = Fin 40\<rparr>\<rparr>)
   \<and> client (MouseEvent None (Fin 508) (Fin 8)) = Some (Fin 508, Fin 8)
   \<and> js_le minSize (Fin 300) \<and> js_le (Fin 300) (getContainerSize (desktop_page 400))
   \<and> cropBox (store (runAnimationFrame (desktop_page 400)
        (state_of (handleDrag (desktop_page 400) (MouseEvent None (Fin 508) (Fin 8))
           ((useCropBoxDesktop usePicCutStore)
              \<lparr>isDragging := True, dragStartPos := \<lparr>x = Fin 30, y = Fin 40\<rparr>\<rparr>)))))
     = \<lparr>x = Fin 100, y = Fin 0, width = Fin 300, height = Fin 300\<rparr>"
proof -
  let ?st = "(useCropBoxDesktop usePicCutStore)
      \<lparr>isDragging := True, dragStartPos := \<lparr>x = Fin 30, y = Fin 40\<rparr>\<rparr>"
  let ?ev = "MouseEvent None (Fin 508) (Fin 8)"
  have d: "isDragging ?st" by simp
  have e: "client ?ev = Some (Fin 508, Fin 8)" by simp
  have c: "getContainerSize (desktop_page 400) = Fin 400"
    by (simp add: getContainerSize_def Math_min_def)
  have w1: "js_le minSize (width (cropBox (store ?st)))"
    and h1: "js_le minSize (height (cropBox (store ?st)))"
    by (simp_all add: useCropBoxDesktop_def usePicCutStore_def minSize_def)
  have w2: "js_le (width (cropBox (store ?st))) (getContainerSize (desktop_page 400))"
    and h2: "js_le (height (cropBox (store ?st))) (getContainerSize (desktop_page 400))"
    by (simp_all add: useCropBoxDesktop_def usePicCutStore_def c)
  from handleDrag_keeps_size [OF d e w1 w2 h1 h2, of "desktop_page 400"]
  have "cropBox (store (runAnimationFrame (desktop_page 400)
        (state_of (handleDrag (desktop_page 400) ?ev ?st))))
     = \<lparr>x = Math_max (Fin 0)
            (Math_min
               (Math_max (Fin 0)
                  (js_sub (getContainerSize (desktop_page 400)) (width (cropBox (store ?st)))))
               (js_sub (js_sub (Fin 508) (Fin 8)) (x (dragStartPos ?st)))),
        y = Math_max (Fin 0)
            (Math_min
               (Math_max (Fin 0)
                  (js_sub (getContainerSize (desktop_page 400)) (height (cropBox (store ?st)))))
               (js_sub (js_sub (Fin 8) (Fin 8)) (y (dragStartPos ?st)))),
        width = width (cropBox (store ?st)),
        height = height (cropBox (store ?st))\<rparr>"
    by auto
  also have "\<dots> = \<lparr>x = Fin 100, y = Fin 0, width = Fin 300, height = Fin 300\<rparr>"
    by (simp add: c useCropBoxDesktop_def usePicCutStore_def Math_max_def Math_min_def)
  finally have "cropBox (store (runAnimationFrame (desktop_page 400)
        (state_of (handleDrag (desktop_page 400) ?ev ?st))))
     = \<lparr>x = Fin 100, y = Fin 0, width = Fin 300, height = Fin 300\<rparr>" .
  moreover have "js_le minSize (Fin 300)" by (simp add: minSize_def)
  moreover have "js_le (Fin 300) (getContainerSize (desktop_page 400))" by (simp add: c)
  ultimately show ?thesis using d e by blast
qed

section \<open>Placing the crop box on a new image\<close>

text \<open>
  Claim C6, as the code has it. Three places put the crop box on the displayed image
  \<open>m\<close>. After a crop, \<open>setCropBoxToFullImage\<close> stores the image rectangle shrunk by
  2 on each side: \<open>x = offsetX + 2\<close>, \<open>y = offsetY + 2\<close>,
  \<open>width = displayWidth - 4\<close>, \<open>height = displayHeight - 4\<close>.
  \<open>adjustCropBoxToImage\<close> stores \<open>x = max(0, offsetX + 2)\<close>,
  \<open>y = max(0, offsetY + 2)\<close>, \<open>width = max(50, displayWidth - 4)\<close>,
  \<open>height = max(50, displayHeight - 4)\<close>, which is the same box whenever the offsets
  are at least \<open>-2\<close> and the displayed sizes at least 54. The upload handler uses a
  margin of 3: \<open>x = offsetX + 3\<close>, \<open>y = offsetY + 3\<close>, \<open>width = displayWidth - 6\<close>,
  \<open>height = displayHeight - 6\<close>.
\<close>

theorem cropBox_reset_to_image:
  assumes "hasImage (store st)"
    and "m = displayMapping (getContainerSize doc)
               (image_width (image_data (store st))) (image_height (image_data (store st)))"
    and "m' = displayMapping (if isMobile then mobileSize else getContainerSize doc)
               (image_width (image_data (store st))) (image_height (image_data (store st)))"
    and "m'' = displayMapping (getContainerSize_upload doc)
               (image_width (image_data (store st))) (image_height (image_data (store st)))"
  shows "cropBox (setCropBoxToFullImage isMobile mobileSize doc (store st)) =
           \<lparr>x = js_add (offsetX m') (Fin 2), y = js_add (offsetY m') (Fin 2),
            width = js_sub (imageDisplayWidth m') (Fin 4),
            height = js_sub (imageDisplayHeight m') (Fin 4)\<rparr>
       \<and> cropBox (store (adjustCropBoxToImage doc st)) =
           \<lparr>x = Math_max (Fin 0) (js_add (offsetX m) (Fin 2)),
            y = Math_max (Fin 0) (js_add (offsetY m) (Fin 2)),
            width = Math_max minSize (js_sub (imageDisplayWidth m) (Fin 4)),
            height = Math_max minSize (js_sub (imageDisplayHeight m) (Fin 4))\<rparr>
       \<and> (js_le (Fin (- 2)) (offsetX m) \<and> js_le (Fin (- 2)) (offsetY m)
            \<and> js_le (Fin 54) (imageDisplayWidth m) \<and> js_le (Fin 54) (imageDisplayHeight m) \<longrightarrow>
          cropBox (store (adjustCropBoxToImage doc st)) =
           \<lparr>x = js_add (offsetX m) (Fin 2), y = js_add (offsetY m) (Fin 2),
            width = js_sub (imageDisplayWidth m) (Fin 4),
            height = js_sub (imageDisplayHeight m) (Fin 4)\<rparr>)
       \<and> cropBox (handleFileUpload_cropBox doc (image_width (image_data (store st)))
                    (image_height (image_data (store st))) (store st)) =
           \<lparr>x = js_add (offsetX m'') (Fin 3), y = js_add (offsetY m'') (Fin 3),
            width = js_sub (imageDisplayWidth m'') (Fin 6),
            height = js_sub (imageDisplayHeight m'') (Fin 6)\<rparr>"
proof -
  have full: "cropBox (setCropBoxToFullImage isMobile mobileSize doc (store st)) =
           \<lparr>x = js_add (offsetX m') (Fin 2), y = js_add (offsetY m') (Fin 2),
            width = js_sub (imageDisplayWidth m') (Fin 4),
            height = js_sub (imageDisplayHeight m') (Fin 4)\<rparr>"
    using assms(1)
    by (simp add: setCropBoxToFullImage_def Let_def assms(3) updateCropBox_def spread_def)
  have adj: "cropBox (store (adjustCropBoxToImage doc st)) =
           \<lparr>x = Math_max (Fin 0) (js_add (offsetX m) (Fin 2)),
            y = Math_max (Fin 0) (js_add (offsetY m) (Fin 2)),
            width = Math_max minSize (js_sub (imageDisplayWidth m) (Fin 4)),
            height = Math_max minSize (js_sub (imageDisplayHeight m) (Fin 4))\<rparr>"
    using assms(1)
    by (simp add: adjustCropBoxToImage_def Let_def assms(2) updateCropBox_def spread_def)
  have same: "js_le (Fin (- 2)) (offsetX m) \<and> js_le (Fin (- 2)) (offsetY m)
            \<and> js_le (Fin 54) (imageDisplayWidth m) \<and> js_le (Fin 54) (imageDisplayHeight m) \<longrightarrow>
          cropBox (store (adjustCropBoxToImage doc st)) =
           \<lparr>x = js_add (offsetX m) (Fin 2), y = js_add (offsetY m) (Fin 2),
            width = js_sub (imageDisplayWidth m) (Fin 4),
            height = js_sub (imageDisplayHeight m) (Fin 4)\<rparr>"
    by (simp add: adj margin_width margin_offset)
  have up: "cropBox (handleFileUpload_cropBox doc (image_width (image_data (store st)))
                    (image_height (image_data (store st))) (store st)) =
           \<lparr>x = js_add (offsetX m'') (Fin 3), y = js_add (offsetY m'') (Fin 3),
            width = js_sub (imageDisplayWidth m'') (Fin 6),
            height = js_sub (imageDisplayHeight m'') (Fin 6)\<rparr>"
    by (simp add: handleFileUpload_cropBox_def Let_def assms(4) updateCropBox_def spread_def)
  from full adj same up show ?thesis by blast
qed

theorem cropBox_reset_to_image_witness:
  "hasImage (usePicCutStore
      \<lparr>image_data := \<lparr>url = Some ''blob:1'', image_width = Fin 800, image_height = Fin 400\<rparr>\<rparr>)
   \<and> cropBox (setCropBoxToFullImage False (Fin 0) (desktop_page 400)
        (usePicCutStore
           \<lparr>image_data := \<lparr>url = Some ''blob:1'', image_width = Fin 800, image_height = Fin 400\<rparr>\<rparr>))
       = \<lparr>x = Fin 2, y = Fin 102, width = Fin 396, height = Fin 196\<rparr>
   \<and> cropBox (store (adjustCropBoxToImage (desktop_page 400)
        (useCropBoxDesktop (usePicCutStore
           \<lparr>image_data := \<lparr>url = Some ''blob:1'', image_width = Fin 800, image_height = Fin 400\<rparr>\<rparr>))))
       = \<lparr>x = Fin 2, y = Fin 102, width = Fin 396, height = Fin 196\<rparr>
   \<and> cropBox (handleFileUpload_cropBox (desktop_page 400) (Fin 800) (Fin 400)
        (usePicCutStore
           \<lparr>image_data := \<lparr>url = Some ''blob:1'', image_width = Fin 800, image_height = Fin 400\<rparr>\<rparr>))
       = \<lparr>x = Fin 3, y = Fin 103, width = Fin 394, height = Fin 194\<rparr>"
proof -
  let ?s = "usePicCutStore
      \<lparr>image_data := \<lparr>url = Some ''blob:1'', image_width = Fin 800, image_height = Fin 400\<rparr>\<rparr>"
  let ?st = "useCropBoxDesktop ?s"
  have s: "store ?st = ?s" by (simp add: useCropBoxDesktop_def)
  have h: "hasImage (store ?st)" by (simp add: s hasImage_def)
  have c: "getContainerSize (desktop_page 400) = Fin 400"
    by (simp add: getContainerSize_def Math_min_def)
  have u: "getContainerSize_upload (desktop_page 400) = Fin 400"
    by (simp add: getContainerSize_upload_def Math_min_def)
  have i: "image_width (image_data ?s) = Fin 800" "image_height (image_data ?s) = Fin 400"
    by simp_all
  note t = cropBox_reset_to_image
    [where doc = "desktop_page 400" and isMobile = False and mobileSize = "Fin 0",
      OF h refl refl refl]
  from t have a: "cropBox (setCropBoxToFullImage False (Fin 0) (desktop_page 400) ?s)
       = \<lparr>x = Fin 2, y = Fin 102, width = Fin 396, height = Fin 196\<rparr>"
    unfolding s i by (simp add: c displayMapping_800_400)
  from t have b: "cropBox (store (adjustCropBoxToImage (desktop_page 400) ?st))
       = \<lparr>x = Fin 2, y = Fin 102, width = Fin 396, height = Fin 196\<rparr>"
    unfolding s i by (simp add: c displayMapping_800_400 Math_max_def minSize_def)
  from t have d: "cropBox (handleFileUpload_cropBox (desktop_page 400) (Fin 800) (Fin 400) ?s)
       = \<lparr>x = Fin 3, y = Fin 103, width = Fin 394, height = Fin 194\<rparr>"
    unfolding s i by (simp add: u displayMapping_800_400)
  from h s a b d show ?thesis by simp
qed

text \<open>
  The claim as stated fails on upload, where the margin is 3 (for an 800 by 400 image
  in a container of side 400, \<open>x\<close> is 3 and not 2), and in \<open>adjustCropBoxToImage\<close>
  for a displayed side below 54 (a 1000 by 100 image is displayed 40 high, and the
  height stored is 50, not 36).
\<close>

theorem cropBox_reset_to_image_counterexample:
  "x (cropBox (handleFileUpload_cropBox (desktop_page 400) (Fin 800) (Fin 400)
        (usePicCutStore
           \<lparr>image_data := \<lparr>url = Some ''blob:1'', image_width = Fin 800, image_height = Fin 400\<rparr>\<rparr>)))
     \<noteq> js_add (offsetX (displayMapping (getContainerSize_upload (desktop_page 400))
                  (Fin 800) (Fin 400))) (Fin 2)
   \<and> height (cropBox (store (adjustCropBoxToImage (desktop_page 400)
        (useCropBoxDesktop (usePicCutStore
           \<lparr>image_data := \<lparr>url = Some ''blob:2'', image_width = Fin 1000, image_height = Fin 100\<rparr>\<rparr>)))))
     \<noteq> js_sub (imageDisplayHeight (displayMapping (getContainerSize (desktop_page 400))
                  (Fin 1000) (Fin 100))) (Fin 4)"
  by (simp add: handleFileUpload_cropBox_def adjustCropBoxToImage_def hasImage_def Let_def
      useCropBoxDesktop_def updateCropBox_def spread_def displayMapping_def js_gt_def
      getContainerSize_def getContainerSize_upload_def minSize_def Math_max_def Math_min_def)

end
